theory Spec2Isabelle
  imports Complex_Main "HOL-Library.Word" "HOL-Library.Sublist"
begin

section \<open>Time scale values (Time.cpp)\<close>

subsection \<open>Data\<close>

text \<open>
  \<open>TimeUnit\<close> and \<open>TimeScaleMagnitude\<close> are scoped enums declared in
  \<^verbatim>\<open>slang/numeric/Time.h\<close>. The enumerators are the ones Time.cpp names; the
  order of \<open>TimeUnit\<close> is the order of the \<open>switch\<close> in \<open>timeUnitToSuffix\<close> and
  of the \<open>strToUnit\<close> table, "specified in reverse order" as the comment in
  \<open>operator>\<close> says (the physically larger unit has the smaller value).
\<close>

datatype TimeUnit =
  Seconds | Milliseconds | Microseconds | Nanoseconds | Picoseconds | Femtoseconds

datatype TimeScaleMagnitude = One | Ten | Hundred

text \<open>
  Modelled from the spec: the underlying values of the two enums, whose declaration
  (Time.h) is not among the sources. The units count up from 0 in declaration order;
  the magnitudes are the literal values 1, 10 and 100 that \<open>fromLiteral\<close> maps to
  them ("a numeric token whose integer value is 1, 10, or 100").
\<close>

fun TimeUnit_value :: "TimeUnit \<Rightarrow> nat" where
  "TimeUnit_value Seconds = 0"
| "TimeUnit_value Milliseconds = 1"
| "TimeUnit_value Microseconds = 2"
| "TimeUnit_value Nanoseconds = 3"
| "TimeUnit_value Picoseconds = 4"
| "TimeUnit_value Femtoseconds = 5"

fun TimeScaleMagnitude_value :: "TimeScaleMagnitude \<Rightarrow> nat" where
  "TimeScaleMagnitude_value One = 1"
| "TimeScaleMagnitude_value Ten = 10"
| "TimeScaleMagnitude_value Hundred = 100"

record TimeScaleValue =
  unit :: TimeUnit
  magnitude :: TimeScaleMagnitude

text \<open>
  A C++ \<open>double\<close>, as far as Time.cpp uses it: only \<open>==\<close> against the literals 1, 10
  and 100 and the conversion from \<open>int\<close>. Every finite double is a real number; the
  infinities and NaN are separate values, and NaN compares unequal to everything.
\<close>

datatype double = Finite real | PosInf | NegInf | NaN

fun double_eq :: "double \<Rightarrow> double \<Rightarrow> bool" where
  "double_eq (Finite a) (Finite b) = (a = b)"
| "double_eq PosInf PosInf = True"
| "double_eq NegInf NegInf = True"
| "double_eq _ _ = False"

definition double_of_int :: "int \<Rightarrow> double" where
  "double_of_int i = Finite (of_int i)"

datatype cpp_error =
  invalid_argument string
| out_of_range string
| runtime_error string

subsection \<open>Suffix table\<close>

text \<open>
  \<open>StringTable<T>\<close> (slang/util/StringTable.h) is not among the sources. It is taken
  as what its use shows: a constant table from keys to values, \<open>lookup\<close> finding the
  entry whose key is exactly the given string. The entries are those of Time.cpp. The
  out parameter of \<open>suffixToTimeUnit\<close> is the result \<open>Some u\<close>; \<open>None\<close> is the
  return value \<open>false\<close>.
\<close>

definition strToUnit :: "(string \<times> TimeUnit) list" where
  "strToUnit =
     [(''s'', Seconds), (''ms'', Milliseconds),
      (''us'', Microseconds), (''ns'', Nanoseconds),
      (''ps'', Picoseconds), (''fs'', Femtoseconds)]"

definition StringTable_lookup :: "(string \<times> 'a) list \<Rightarrow> string \<Rightarrow> 'a option" where
  "StringTable_lookup table key = map_of table key"

definition suffixToTimeUnit :: "string \<Rightarrow> TimeUnit option" where
  "suffixToTimeUnit timeSuffix = StringTable_lookup strToUnit timeSuffix"

fun timeUnitToSuffix :: "TimeUnit \<Rightarrow> string" where
  "timeUnitToSuffix Seconds = ''s''"
| "timeUnitToSuffix Milliseconds = ''ms''"
| "timeUnitToSuffix Microseconds = ''us''"
| "timeUnitToSuffix Nanoseconds = ''ns''"
| "timeUnitToSuffix Picoseconds = ''ps''"
| "timeUnitToSuffix Femtoseconds = ''fs''"

subsection \<open>fromLiteral, the string constructor, toString\<close>

definition fromLiteral :: "double \<Rightarrow> TimeUnit \<Rightarrow> TimeScaleValue option" where
  "fromLiteral v u =
     (if double_eq v (Finite 1) then Some \<lparr>unit = u, magnitude = One\<rparr>
      else if double_eq v (Finite 10) then Some \<lparr>unit = u, magnitude = Ten\<rparr>
      else if double_eq v (Finite 100) then Some \<lparr>unit = u, magnitude = Hundred\<rparr>
      else None)"

text \<open>
  \<open>std::stoi(s, &idx)\<close> of the C++ library, base 10: skip leading white space, read an
  optional sign and the longest run of decimal digits; \<open>invalid_argument\<close> when there
  is no digit, \<open>out_of_range\<close> when the value does not fit an \<open>int\<close> (32 bits);
  otherwise the value and the number of characters read.
\<close>

definition isspace :: "char \<Rightarrow> bool" where
  "isspace c = (c = CHR '' '' \<or> (9 \<le> (of_char c :: nat) \<and> (of_char c :: nat) \<le> 13))"

definition isdigit :: "char \<Rightarrow> bool" where
  "isdigit c = (48 \<le> (of_char c :: nat) \<and> (of_char c :: nat) \<le> 57)"

definition digit_value :: "char \<Rightarrow> nat" where
  "digit_value c = of_char c - 48"

definition decimal_value :: "string \<Rightarrow> nat" where
  "decimal_value ds = foldl (\<lambda>acc c. 10 * acc + digit_value c) 0 ds"

definition stoi :: "string \<Rightarrow> cpp_error + (int \<times> nat)" where
  "stoi s =
     (let ws = takeWhile isspace s;
          r = dropWhile isspace s;
          neg = (r \<noteq> [] \<and> hd r = CHR ''-'');
          nsign = (if r \<noteq> [] \<and> (hd r = CHR ''-'' \<or> hd r = CHR ''+'') then 1 else 0);
          ds = takeWhile isdigit (drop nsign r);
          v = (if neg then - int (decimal_value ds) else int (decimal_value ds))
      in if ds = [] then Inl (invalid_argument ''stoi'')
         else if v < - (2 ^ 31) \<or> 2 ^ 31 - 1 < v then Inl (out_of_range ''stoi'')
         else Inr (v, length ws + nsign + length ds))"

text \<open>
  The constructor from a string. The \<open>while\<close> loop skips the blanks after the number;
  \<open>idx >= str.size()\<close> or a failed suffix lookup throws, as does a magnitude that
  \<open>fromLiteral\<close> refuses.
\<close>

definition TimeScaleValue_of_string :: "string \<Rightarrow> cpp_error + TimeScaleValue" where
  "TimeScaleValue_of_string str =
     (case stoi str of
        Inl e \<Rightarrow> Inl e
      | Inr (i, idx0) \<Rightarrow>
          (let idx = idx0 + length (takeWhile (\<lambda>c. c = CHR '' '') (drop idx0 str))
           in if idx \<ge> length str then
                Inl (invalid_argument ''Time value suffix is missing or invalid'')
              else
                (case suffixToTimeUnit (drop idx str) of
                   None \<Rightarrow> Inl (invalid_argument ''Time value suffix is missing or invalid'')
                 | Some u \<Rightarrow>
                     (case fromLiteral (double_of_int i) u of
                        None \<Rightarrow> Inl (invalid_argument ''Invalid time scale value'')
                      | Some tv \<Rightarrow> Inr tv))))"

text \<open>\<open>std::to_string(int)\<close>: the decimal digits, with a minus sign when negative.\<close>

fun decimal_digits :: "nat \<Rightarrow> string" where
  "decimal_digits n =
     (if n < 10 then [''0123456789'' ! n]
      else decimal_digits (n div 10) @ [''0123456789'' ! (n mod 10)])"

declare decimal_digits.simps [simp del]

definition to_string :: "int \<Rightarrow> string" where
  "to_string i = (if i < 0 then CHR ''-'' # decimal_digits (nat (- i)) else decimal_digits (nat i))"

definition toString :: "TimeScaleValue \<Rightarrow> string" where
  "toString tv =
     to_string (int (TimeScaleMagnitude_value (magnitude tv))) @ timeUnitToSuffix (unit tv)"

subsection \<open>Comparison\<close>

definition TimeScaleValue_gt :: "TimeScaleValue \<Rightarrow> TimeScaleValue \<Rightarrow> bool" where
  "TimeScaleValue_gt lhs rhs =
     (if TimeUnit_value (unit lhs) < TimeUnit_value (unit rhs) then True
      else if TimeUnit_value (unit lhs) > TimeUnit_value (unit rhs) then False
      else TimeScaleMagnitude_value (magnitude lhs) > TimeScaleMagnitude_value (magnitude rhs))"

definition TimeScaleValue_eq :: "TimeScaleValue \<Rightarrow> TimeScaleValue \<Rightarrow> bool" where
  "TimeScaleValue_eq lhs rhs = (unit lhs = unit rhs \<and> magnitude lhs = magnitude rhs)"

subsection \<open>Properties\<close>

lemma TimeUnit_value_inj: "TimeUnit_value a = TimeUnit_value b \<longleftrightarrow> a = b"
  by (cases a; cases b) simp_all

lemma TimeScaleMagnitude_value_inj:
  "TimeScaleMagnitude_value a = TimeScaleMagnitude_value b \<longleftrightarrow> a = b"
  by (cases a; cases b) simp_all

lemma strToUnit_keys:
  "map_of strToUnit s =
     (if s = ''s'' then Some Seconds
      else if s = ''ms'' then Some Milliseconds
      else if s = ''us'' then Some Microseconds
      else if s = ''ns'' then Some Nanoseconds
      else if s = ''ps'' then Some Picoseconds
      else if s = ''fs'' then Some Femtoseconds
      else None)"
  by (simp add: strToUnit_def)

lemma suffixToTimeUnit_inverse: "suffixToTimeUnit (timeUnitToSuffix u) = Some u"
  by (cases u) (simp_all add: suffixToTimeUnit_def StringTable_lookup_def strToUnit_keys)

lemma double_eq_Finite: "double_eq v (Finite r) \<longleftrightarrow> v = Finite r"
  by (cases v) auto

lemma toString_cases:
  "toString \<lparr>unit = u, magnitude = One\<rparr> = ''1'' @ timeUnitToSuffix u"
  "toString \<lparr>unit = u, magnitude = Ten\<rparr> = ''10'' @ timeUnitToSuffix u"
  "toString \<lparr>unit = u, magnitude = Hundred\<rparr> = ''100'' @ timeUnitToSuffix u"
  by (simp_all add: toString_def to_string_def decimal_digits.simps)

lemma TimeScaleValue_gt_iff:
  "TimeScaleValue_gt x y =
     (TimeUnit_value (unit x) < TimeUnit_value (unit y) \<or>
      (unit x = unit y \<and>
       TimeScaleMagnitude_value (magnitude x) > TimeScaleMagnitude_value (magnitude y)))"
  using TimeUnit_value_inj [of "unit x" "unit y"]
  by (auto simp: TimeScaleValue_gt_def)

lemma TimeScaleValue_gt_nat:
  "TimeScaleValue_gt x y =
     (TimeUnit_value (unit x) < TimeUnit_value (unit y) \<or>
      (TimeUnit_value (unit x) = TimeUnit_value (unit y) \<and>
       TimeScaleMagnitude_value (magnitude y) < TimeScaleMagnitude_value (magnitude x)))"
  by (auto simp: TimeScaleValue_gt_def)

lemma lex_pair_trichotomy:
  fixes p q m n :: nat
  shows "((p < q \<or> (p = q \<and> n < m)) \<and> \<not> (q < p \<or> (q = p \<and> m < n)) \<and> \<not> (p = q \<and> m = n)) \<or>
         (\<not> (p < q \<or> (p = q \<and> n < m)) \<and> (q < p \<or> (q = p \<and> m < n)) \<and> \<not> (p = q \<and> m = n)) \<or>
         (\<not> (p < q \<or> (p = q \<and> n < m)) \<and> \<not> (q < p \<or> (q = p \<and> m < n)) \<and> (p = q \<and> m = n))"
  by arith

lemma lex_pair_trans:
  fixes p q r m n k :: nat
  shows "(p < q \<or> (p = q \<and> n < m)) \<and> (q < r \<or> (q = r \<and> k < n)) \<longrightarrow>
         (p < r \<or> (p = r \<and> k < m))"
  by arith

lemma TimeScaleValue_eq_iff:
  "TimeScaleValue_eq x y =
     (TimeUnit_value (unit x) = TimeUnit_value (unit y) \<and>
      TimeScaleMagnitude_value (magnitude x) = TimeScaleMagnitude_value (magnitude y))"
  by (simp add: TimeScaleValue_eq_def TimeUnit_value_inj TimeScaleMagnitude_value_inj)

text \<open>
  C2. \<open>fromLiteral\<close> returns a value exactly for the magnitudes 1, 10 and 100 (and
  \<open>nullopt\<close> for every other double), with the magnitude that belongs to the literal;
  \<open>suffixToTimeUnit\<close> succeeds exactly on the six suffixes s, ms, us, ns, ps, fs, and
  the unit it sets is the one whose suffix (\<open>timeUnitToSuffix\<close>) is the given string.
\<close>

theorem time_literal_validation:
  "(fromLiteral v u \<noteq> None) = (v = Finite 1 \<or> v = Finite 10 \<or> v = Finite 100)
   \<and> fromLiteral (Finite 1) u = Some \<lparr>unit = u, magnitude = One\<rparr>
   \<and> fromLiteral (Finite 10) u = Some \<lparr>unit = u, magnitude = Ten\<rparr>
   \<and> fromLiteral (Finite 100) u = Some \<lparr>unit = u, magnitude = Hundred\<rparr>
   \<and> (suffixToTimeUnit s \<noteq> None) = (s \<in> {''s'', ''ms'', ''us'', ''ns'', ''ps'', ''fs''})
   \<and> (suffixToTimeUnit s = Some w) = (s = timeUnitToSuffix w)
   \<and> suffixToTimeUnit ''s'' = Some Seconds
   \<and> suffixToTimeUnit ''ms'' = Some Milliseconds
   \<and> suffixToTimeUnit ''us'' = Some Microseconds
   \<and> suffixToTimeUnit ''ns'' = Some Nanoseconds
   \<and> suffixToTimeUnit ''ps'' = Some Picoseconds
   \<and> suffixToTimeUnit ''fs'' = Some Femtoseconds"
proof -
  have lit: "(fromLiteral v u \<noteq> None) = (v = Finite 1 \<or> v = Finite 10 \<or> v = Finite 100)"
    by (simp add: fromLiteral_def double_eq_Finite)
  have vals: "fromLiteral (Finite 1) u = Some \<lparr>unit = u, magnitude = One\<rparr>"
    "fromLiteral (Finite 10) u = Some \<lparr>unit = u, magnitude = Ten\<rparr>"
    "fromLiteral (Finite 100) u = Some \<lparr>unit = u, magnitude = Hundred\<rparr>"
    by (simp_all add: fromLiteral_def)
  have suf: "suffixToTimeUnit t = map_of strToUnit t" for t
    by (simp add: suffixToTimeUnit_def StringTable_lookup_def)
  have mem: "(suffixToTimeUnit s \<noteq> None) = (s \<in> {''s'', ''ms'', ''us'', ''ns'', ''ps'', ''fs''})"
    unfolding suf strToUnit_keys by simp
  have corr: "(suffixToTimeUnit s = Some w) = (s = timeUnitToSuffix w)"
    unfolding suf strToUnit_keys by (cases w) auto
  have tab: "suffixToTimeUnit ''s'' = Some Seconds" "suffixToTimeUnit ''ms'' = Some Milliseconds"
    "suffixToTimeUnit ''us'' = Some Microseconds" "suffixToTimeUnit ''ns'' = Some Nanoseconds"
    "suffixToTimeUnit ''ps'' = Some Picoseconds" "suffixToTimeUnit ''fs'' = Some Femtoseconds"
    unfolding suf strToUnit_keys by simp_all
  from lit vals mem corr tab show ?thesis by blast
qed

text \<open>
  C8. Printing a time scale value and constructing one from the printed string gives
  the value back: for each of the six units and three magnitudes the constructor does
  not throw, and its result is equal to the original under \<open>operator==\<close>.
\<close>

theorem toString_roundtrip:
  "\<exists>r. TimeScaleValue_of_string (toString tv) = Inr r \<and> TimeScaleValue_eq r tv"
proof -
  obtain u m where tv: "tv = \<lparr>unit = u, magnitude = m\<rparr>"
    by (cases tv) auto
  have "TimeScaleValue_of_string (toString tv) = Inr tv"
    unfolding tv
    by (cases u; cases m;
        simp add: toString_cases TimeScaleValue_of_string_def stoi_def isspace_def
          isdigit_def decimal_value_def digit_value_def suffixToTimeUnit_def
          StringTable_lookup_def strToUnit_def fromLiteral_def double_of_int_def)
  then show ?thesis
    by (simp add: TimeScaleValue_eq_def)
qed

text \<open>
  C9. \<open>operator>\<close> and \<open>operator==\<close> order the time scale values strictly and totally:
  \<open>a > b\<close> holds exactly when the unit of \<open>a\<close> has the smaller enum value, or the units
  are equal and the magnitude of \<open>a\<close> is the greater; of \<open>a > b\<close>, \<open>b > a\<close> and
  \<open>a == b\<close> exactly one holds; and \<open>>\<close> is transitive.
\<close>

theorem TimeScaleValue_strict_total_order:
  "TimeScaleValue_gt a b =
     (TimeUnit_value (unit a) < TimeUnit_value (unit b) \<or>
      (unit a = unit b \<and>
       TimeScaleMagnitude_value (magnitude a) > TimeScaleMagnitude_value (magnitude b)))
   \<and> ((TimeScaleValue_gt a b \<and> \<not> TimeScaleValue_gt b a \<and> \<not> TimeScaleValue_eq a b) \<or>
      (\<not> TimeScaleValue_gt a b \<and> TimeScaleValue_gt b a \<and> \<not> TimeScaleValue_eq a b) \<or>
      (\<not> TimeScaleValue_gt a b \<and> \<not> TimeScaleValue_gt b a \<and> TimeScaleValue_eq a b))
   \<and> (TimeScaleValue_gt a b \<and> TimeScaleValue_gt b c \<longrightarrow> TimeScaleValue_gt a c)"
proof -
  have one: "(TimeScaleValue_gt a b \<and> \<not> TimeScaleValue_gt b a \<and> \<not> TimeScaleValue_eq a b) \<or>
      (\<not> TimeScaleValue_gt a b \<and> TimeScaleValue_gt b a \<and> \<not> TimeScaleValue_eq a b) \<or>
      (\<not> TimeScaleValue_gt a b \<and> \<not> TimeScaleValue_gt b a \<and> TimeScaleValue_eq a b)"
    unfolding TimeScaleValue_eq_iff TimeScaleValue_gt_nat [of a b] TimeScaleValue_gt_nat [of b a]
    by (rule lex_pair_trichotomy)
  have trans: "TimeScaleValue_gt a b \<and> TimeScaleValue_gt b c \<longrightarrow> TimeScaleValue_gt a c"
    unfolding TimeScaleValue_gt_nat
    by (rule lex_pair_trans)
  from one trans TimeScaleValue_gt_iff [of a b] show ?thesis
    by blast
qed

theorem TimeScaleValue_strict_total_order_witness:
  "TimeScaleValue_gt \<lparr>unit = Seconds, magnitude = One\<rparr> \<lparr>unit = Nanoseconds, magnitude = Hundred\<rparr>
   \<and> TimeScaleValue_gt \<lparr>unit = Nanoseconds, magnitude = Hundred\<rparr> \<lparr>unit = Nanoseconds, magnitude = Ten\<rparr>
   \<and> TimeScaleValue_gt \<lparr>unit = Seconds, magnitude = One\<rparr> \<lparr>unit = Nanoseconds, magnitude = Ten\<rparr>
   \<and> \<not> TimeScaleValue_gt \<lparr>unit = Nanoseconds, magnitude = Hundred\<rparr> \<lparr>unit = Seconds, magnitude = One\<rparr>
   \<and> \<not> TimeScaleValue_eq \<lparr>unit = Seconds, magnitude = One\<rparr> \<lparr>unit = Nanoseconds, magnitude = Hundred\<rparr>"
  using TimeScaleValue_strict_total_order
    [of "\<lparr>unit = Seconds, magnitude = One\<rparr>" "\<lparr>unit = Nanoseconds, magnitude = Hundred\<rparr>"
        "\<lparr>unit = Nanoseconds, magnitude = Ten\<rparr>"]
  by (simp add: TimeScaleValue_gt_def TimeScaleValue_eq_def)

section \<open>Constraints (Constraints.h)\<close>

subsection \<open>Data\<close>

text \<open>The \<open>CONSTRAINT\<close> list that the \<open>ENUM\<close> macro expands into \<open>ConstraintKind\<close>.\<close>

datatype ConstraintKind =
  Invalid | List | Expression | Implication | Conditional | Uniqueness

text \<open>
  The data members the six derived classes add to the base class, one alternative per
  class. \<open>'e\<close> stands for \<open>Expression\<close> and \<open>'c\<close> for \<open>Constraint\<close>; a pointer that
  may be null is an \<open>option\<close>, a span is a list.
\<close>

datatype ('e, 'c) ConstraintMembers =
  InvalidMembers "'c option"
| ListMembers "'c list"
| ExpressionMembers 'e bool
| ImplicationMembers 'e 'c
| ConditionalMembers 'e 'c "'c option"
| UniquenessMembers "'e list"

text \<open>
  A constraint object: the base class members \<open>kind\<close> and \<open>syntax\<close> (here
  \<open>syntax_ptr\<close>), and the members of the derived class. \<open>'s\<close> stands for \<open>ConstraintItemSyntax\<close>. The tag is a field
  of its own, as in the class: that it agrees with the derived class is a property of the
  constructors, proved below, not of the type.
\<close>

datatype ('e, 's) Constraint =
  Constraint (kind: ConstraintKind) (syntax_ptr: "'s option")
    (members: "('e, ('e, 's) Constraint) ConstraintMembers")


subsection \<open>Constructors and their \<open>isKind\<close>\<close>

text \<open>
  Each constructor passes its own kind to the base constructor; \<open>syntax\<close> keeps its
  default member initializer \<open>nullptr\<close>.
\<close>

definition InvalidConstraint :: "('e, 's) Constraint option \<Rightarrow> ('e, 's) Constraint" where
  "InvalidConstraint child = Constraint Invalid None (InvalidMembers child)"

definition ConstraintList :: "('e, 's) Constraint list \<Rightarrow> ('e, 's) Constraint" where
  "ConstraintList list = Constraint List None (ListMembers list)"

definition ExpressionConstraint :: "'e \<Rightarrow> bool \<Rightarrow> ('e, 's) Constraint" where
  "ExpressionConstraint expr isSoft = Constraint Expression None (ExpressionMembers expr isSoft)"

definition ImplicationConstraint :: "'e \<Rightarrow> ('e, 's) Constraint \<Rightarrow> ('e, 's) Constraint" where
  "ImplicationConstraint predicate body =
     Constraint Implication None (ImplicationMembers predicate body)"

definition ConditionalConstraint ::
  "'e \<Rightarrow> ('e, 's) Constraint \<Rightarrow> ('e, 's) Constraint option \<Rightarrow> ('e, 's) Constraint" where
  "ConditionalConstraint predicate ifBody elseBody =
     Constraint Conditional None (ConditionalMembers predicate ifBody elseBody)"

definition UniquenessConstraint :: "'e list \<Rightarrow> ('e, 's) Constraint" where
  "UniquenessConstraint items = Constraint Uniqueness None (UniquenessMembers items)"

definition InvalidConstraint_isKind :: "ConstraintKind \<Rightarrow> bool" where
  "InvalidConstraint_isKind k = (k = Invalid)"

definition ConstraintList_isKind :: "ConstraintKind \<Rightarrow> bool" where
  "ConstraintList_isKind k = (k = List)"

definition ExpressionConstraint_isKind :: "ConstraintKind \<Rightarrow> bool" where
  "ExpressionConstraint_isKind k = (k = Expression)"

definition ImplicationConstraint_isKind :: "ConstraintKind \<Rightarrow> bool" where
  "ImplicationConstraint_isKind k = (k = Implication)"

definition ConditionalConstraint_isKind :: "ConstraintKind \<Rightarrow> bool" where
  "ConditionalConstraint_isKind k = (k = Conditional)"

definition UniquenessConstraint_isKind :: "ConstraintKind \<Rightarrow> bool" where
  "UniquenessConstraint_isKind k = (k = Uniqueness)"

text \<open>
  The six \<open>isKind\<close> answers for one kind, in the order of the enum: which classes
  accept a node of that kind.
\<close>

definition isKind_answers :: "ConstraintKind \<Rightarrow> bool list" where
  "isKind_answers k =
     [InvalidConstraint_isKind k, ConstraintList_isKind k, ExpressionConstraint_isKind k,
      ImplicationConstraint_isKind k, ConditionalConstraint_isKind k,
      UniquenessConstraint_isKind k]"


subsection \<open>Properties\<close>

lemmas constraint_constructors =
  InvalidConstraint_def ConstraintList_def ExpressionConstraint_def
  ImplicationConstraint_def ConditionalConstraint_def UniquenessConstraint_def

lemmas constraint_isKinds =
  InvalidConstraint_isKind_def ConstraintList_isKind_def ExpressionConstraint_isKind_def
  ImplicationConstraint_isKind_def ConditionalConstraint_isKind_def
  UniquenessConstraint_isKind_def

lemma ConstraintKind_UNIV:
  "(UNIV :: ConstraintKind set) = {Invalid, List, Expression, Implication, Conditional, Uniqueness}"
proof -
  have "k \<in> {Invalid, List, Expression, Implication, Conditional, Uniqueness}"
    for k :: ConstraintKind
    by (cases k) simp_all
  then show ?thesis
    by blast
qed



text \<open>
  C6. \<open>ConstraintKind\<close> has exactly the six values \<open>Invalid\<close>, \<open>List\<close>,
  \<open>Expression\<close>, \<open>Implication\<close>, \<open>Conditional\<close> and \<open>Uniqueness\<close>, all different.
  The node each class constructs is accepted by the \<open>isKind\<close> of its own class and
  refused by the \<open>isKind\<close> of the five others.
\<close>

theorem constructors_tag_own_kind:
  "(UNIV :: ConstraintKind set) = {Invalid, List, Expression, Implication, Conditional, Uniqueness}
   \<and> distinct [Invalid, List, Expression, Implication, Conditional, Uniqueness]
   \<and> isKind_answers (kind (InvalidConstraint child)) = [True, False, False, False, False, False]
   \<and> isKind_answers (kind (ConstraintList list)) = [False, True, False, False, False, False]
   \<and> isKind_answers (kind (ExpressionConstraint expr isSoft)) = [False, False, True, False, False, False]
   \<and> isKind_answers (kind (ImplicationConstraint predicate body)) = [False, False, False, True, False, False]
   \<and> isKind_answers (kind (ConditionalConstraint predicate ifBody elseBody)) = [False, False, False, False, True, False]
   \<and> isKind_answers (kind (UniquenessConstraint items)) = [False, False, False, False, False, True]"
proof -
  have tags:
    "isKind_answers (kind (InvalidConstraint child)) = [True, False, False, False, False, False]"
    "isKind_answers (kind (ConstraintList list)) = [False, True, False, False, False, False]"
    "isKind_answers (kind (ExpressionConstraint expr isSoft)) = [False, False, True, False, False, False]"
    "isKind_answers (kind (ImplicationConstraint predicate body)) = [False, False, False, True, False, False]"
    "isKind_answers (kind (ConditionalConstraint predicate ifBody elseBody)) = [False, False, False, False, True, False]"
    "isKind_answers (kind (UniquenessConstraint items)) = [False, False, False, False, False, True]"
    by (simp_all add: isKind_answers_def constraint_constructors constraint_isKinds)
  have "distinct [Invalid, List, Expression, Implication, Conditional, Uniqueness]"
    by simp
  with tags ConstraintKind_UNIV show ?thesis
    by blast
qed

section \<open>Command line parsing (CommandLine.cpp)\<close>

subsection \<open>Option targets\<close>

text \<open>
  An option stores into a variable of the caller: one of the thirteen types the \<open>add\<close>
  overloads take. \<open>OptionStorage\<close> is the variant of pointers to them (declared in
  CommandLine.h, which is not among the sources). Here the variables live in a store
  from addresses to \<open>Target\<close> values, and an option holds the address; the alternative
  that the variant holds is the alternative of the value at that address, which
  \<open>Option::set\<close> never changes. Two options registered on one variable share its
  address.
\<close>

datatype Target =
  OptBool "bool option"
| OptInt32 "32 word option"
| OptUInt32 "32 word option"
| OptInt64 "64 word option"
| OptUInt64 "64 word option"
| OptDouble "double option"
| OptString "string option"
| VecInt32 "32 word list"
| VecUInt32 "32 word list"
| VecInt64 "64 word list"
| VecUInt64 "64 word list"
| VecDouble "double list"
| VecString "string list"

type_synonym store = "nat \<Rightarrow> Target"

record Option =
  desc :: string
  valueName :: string
  allArgNames :: string
  storage :: nat

text \<open>
  The \<open>CommandLine\<close> object. \<open>optionMap\<close> is a \<open>std::map\<close> from names to shared
  options: the list holds its entries in iteration order, and a lookup finds the entry
  with the given key. \<open>parse\<close> never changes an \<open>Option\<close> object, only the variable
  it points to, so the entries hold the options by value.
\<close>

record CommandLine =
  optionMap :: "(string \<times> Option) list"
  orderedOptions :: "Option list"
  positional :: "Option option"
  programName :: string
  errors :: "string list"

text \<open>
  Functions from outside the repository's sources that the parser calls: the C
  library's \<open>strtod\<close> (the value and the number of characters it read) and
  \<open>editDistance\<close> of slang/util/String.h. They are parameters of the model.
\<close>

record externals =
  strtod :: "string \<Rightarrow> double \<times> nat"
  editDistance :: "string \<Rightarrow> string \<Rightarrow> bool \<Rightarrow> int \<Rightarrow> int"

subsection \<open>Strings and messages\<close>

definition find_first_of :: "string \<Rightarrow> char \<Rightarrow> nat option" where
  "find_first_of str c =
     (if c \<in> set str then Some (length (takeWhile (\<lambda>x. x \<noteq> c) str)) else None)"

text \<open>A \<open>'{}'\<close> of a format string: the argument between two apostrophes.\<close>

definition fmt_quoted :: "string \<Rightarrow> string" where
  "fmt_quoted str = CHR 0x27 # str @ [CHR 0x27]"

text \<open>
  \<open>fs::path(p).filename().string()\<close>: the part of the path after its last directory
  separator (\<open>/\<close>), empty when the path ends in one.
\<close>

definition path_filename :: "string \<Rightarrow> string" where
  "path_filename p = rev (takeWhile (\<lambda>c. c \<noteq> CHR ''/'') (rev p))"

subsection \<open>Value parsers\<close>

text \<open>Each parser returns the optional value and the \<open>error\<close> string it assigns.\<close>

definition parseBool :: "string \<Rightarrow> string \<Rightarrow> bool option \<times> string" where
  "parseBool name v =
     (if v = [] then (Some True, [])
      else if v = ''True'' \<or> v = ''true'' then (Some True, [])
      else if v = ''False'' \<or> v = ''false'' then (Some False, [])
      else (None, ''invalid value '' @ fmt_quoted v @ '' for boolean argument '' @ fmt_quoted name))"

text \<open>
  \<open>std::from_chars\<close> for an integer type, base 10: an optional minus sign (signed types
  only) and the longest run of digits. The result is the error code (\<open>None\<close> for
  \<open>std::errc()\<close>), the offset of \<open>ptr\<close>, and the value.
\<close>

datatype errc = errc_invalid_argument | errc_result_out_of_range

definition from_chars :: "bool \<Rightarrow> int \<Rightarrow> int \<Rightarrow> string \<Rightarrow> errc option \<times> nat \<times> int" where
  "from_chars is_signed lo hi str =
     (let neg = (is_signed \<and> str \<noteq> [] \<and> hd str = CHR ''-'');
          nsign = (if neg then 1 else 0);
          ds = takeWhile isdigit (drop nsign str);
          v = (if neg then - int (decimal_value ds) else int (decimal_value ds))
      in if ds = [] then (Some errc_invalid_argument, 0, 0)
         else if v < lo \<or> hi < v then (Some errc_result_out_of_range, nsign + length ds, 0)
         else (None, nsign + length ds, v))"

definition parseInt :: "bool \<Rightarrow> int \<Rightarrow> int \<Rightarrow> string \<Rightarrow> string \<Rightarrow> int option \<times> string" where
  "parseInt is_signed lo hi name v =
     (if v = [] then (None, ''expected value for argument '' @ fmt_quoted name)
      else
        (case from_chars is_signed lo hi v of
           (ec, ptr, val) \<Rightarrow>
             if ec \<noteq> None \<or> ptr \<noteq> length v then
               (None, ''invalid value '' @ fmt_quoted v @ '' for integer argument '' @ fmt_quoted name)
             else (Some val, [])))"

definition parseInt_int32 :: "string \<Rightarrow> string \<Rightarrow> 32 word option \<times> string" where
  "parseInt_int32 name v =
     (case parseInt True (- (2 ^ 31)) (2 ^ 31 - 1) name v of (r, e) \<Rightarrow> (map_option word_of_int r, e))"

definition parseInt_uint32 :: "string \<Rightarrow> string \<Rightarrow> 32 word option \<times> string" where
  "parseInt_uint32 name v =
     (case parseInt False 0 (2 ^ 32 - 1) name v of (r, e) \<Rightarrow> (map_option word_of_int r, e))"

definition parseInt_int64 :: "string \<Rightarrow> string \<Rightarrow> 64 word option \<times> string" where
  "parseInt_int64 name v =
     (case parseInt True (- (2 ^ 63)) (2 ^ 63 - 1) name v of (r, e) \<Rightarrow> (map_option word_of_int r, e))"

definition parseInt_uint64 :: "string \<Rightarrow> string \<Rightarrow> 64 word option \<times> string" where
  "parseInt_uint64 name v =
     (case parseInt False 0 (2 ^ 64 - 1) name v of (r, e) \<Rightarrow> (map_option word_of_int r, e))"

definition parseDouble :: "externals \<Rightarrow> string \<Rightarrow> string \<Rightarrow> double option \<times> string" where
  "parseDouble ext name v =
     (if v = [] then (None, ''expected value for argument '' @ fmt_quoted name)
      else
        (case strtod ext v of
           (val, end_offset) \<Rightarrow>
             if end_offset \<noteq> length v then
               (None, ''invalid value '' @ fmt_quoted v @ '' for float argument '' @ fmt_quoted name)
             else (Some val, [])))"

subsection \<open>Option::expectsValue and Option::set\<close>

text \<open>
  \<open>expectsValue\<close> is \<open>storage.index() != 0\<close>. Alternative 0 of the variant is taken to
  be \<open>optional<bool>*\<close>, the one kind of option that \<open>add\<close> registers without a value
  name.
\<close>

definition expectsValue :: "store \<Rightarrow> Option \<Rightarrow> bool" where
  "expectsValue h opt = (case h (storage opt) of OptBool _ \<Rightarrow> False | _ \<Rightarrow> True)"

text \<open>
  \<open>allowValue\<close> is declared in CommandLine.h: an optional target takes a value only
  while it has none, a vector target always.
\<close>

fun allowValue :: "Target \<Rightarrow> bool" where
  "allowValue (OptBool t) = (t = None)"
| "allowValue (OptInt32 t) = (t = None)"
| "allowValue (OptUInt32 t) = (t = None)"
| "allowValue (OptInt64 t) = (t = None)"
| "allowValue (OptUInt64 t) = (t = None)"
| "allowValue (OptDouble t) = (t = None)"
| "allowValue (OptString t) = (t = None)"
| "allowValue _ = True"

definition push_back_if :: "'a list \<Rightarrow> 'a option \<Rightarrow> 'a list" where
  "push_back_if target r = (case r of Some v \<Rightarrow> target @ [v] | None \<Rightarrow> target)"

text \<open>The thirteen overloads \<open>set(target, name, value)\<close>: the new target and the error.\<close>

fun set_target :: "externals \<Rightarrow> Target \<Rightarrow> string \<Rightarrow> string \<Rightarrow> Target \<times> string" where
  "set_target ext (OptBool t) name v = (case parseBool name v of (r, e) \<Rightarrow> (OptBool r, e))"
| "set_target ext (OptInt32 t) name v = (case parseInt_int32 name v of (r, e) \<Rightarrow> (OptInt32 r, e))"
| "set_target ext (OptUInt32 t) name v = (case parseInt_uint32 name v of (r, e) \<Rightarrow> (OptUInt32 r, e))"
| "set_target ext (OptInt64 t) name v = (case parseInt_int64 name v of (r, e) \<Rightarrow> (OptInt64 r, e))"
| "set_target ext (OptUInt64 t) name v = (case parseInt_uint64 name v of (r, e) \<Rightarrow> (OptUInt64 r, e))"
| "set_target ext (OptDouble t) name v = (case parseDouble ext name v of (r, e) \<Rightarrow> (OptDouble r, e))"
| "set_target ext (OptString t) name v = (OptString (Some v), [])"
| "set_target ext (VecInt32 t) name v =
     (case parseInt_int32 name v of (r, e) \<Rightarrow> (VecInt32 (push_back_if t r), e))"
| "set_target ext (VecUInt32 t) name v =
     (case parseInt_uint32 name v of (r, e) \<Rightarrow> (VecUInt32 (push_back_if t r), e))"
| "set_target ext (VecInt64 t) name v =
     (case parseInt_int64 name v of (r, e) \<Rightarrow> (VecInt64 (push_back_if t r), e))"
| "set_target ext (VecUInt64 t) name v =
     (case parseInt_uint64 name v of (r, e) \<Rightarrow> (VecUInt64 (push_back_if t r), e))"
| "set_target ext (VecDouble t) name v =
     (case parseDouble ext name v of (r, e) \<Rightarrow> (VecDouble (push_back_if t r), e))"
| "set_target ext (VecString t) name v = (VecString (t @ [v]), [])"

text \<open>\<open>Option::set(name, value)\<close>: the store after the call and the returned message.\<close>

definition Option_set :: "externals \<Rightarrow> store \<Rightarrow> Option \<Rightarrow> string \<Rightarrow> string \<Rightarrow> store \<times> string" where
  "Option_set ext h opt name v =
     (if \<not> allowValue (h (storage opt)) then
        (h, ''more than one value provided for argument '' @ fmt_quoted name)
      else
        (case set_target ext (h (storage opt)) name v of
           (t, e) \<Rightarrow> (h(storage opt := t), e)))"

subsection \<open>Looking an option up\<close>

text \<open>
  \<open>findOption(arg, value)\<close>: \<open>value\<close> is passed by reference and is assigned only
  when \<open>arg\<close> has an equals sign. The result is the option found, if any, and \<open>value\<close>
  after the call.
\<close>

definition findOption :: "CommandLine \<Rightarrow> string \<Rightarrow> string \<Rightarrow> Option option \<times> string" where
  "findOption cl arg v =
     (case find_first_of arg CHR ''='' of
        Some equalsIndex \<Rightarrow> (map_of (optionMap cl) (take equalsIndex arg), drop (equalsIndex + 1) arg)
      | None \<Rightarrow> (map_of (optionMap cl) arg, v))"

text \<open>
  \<open>tryGroupOrPrefix(arg, value)\<close>: both parameters are references, so the result holds
  the option, \<open>arg\<close> and \<open>value\<close> after the call, and the store, which the flags of a
  group have been set in. The message that \<open>option->set(name, "")\<close> returns for a flag
  of the group is dropped, as in the source. \<open>arg.substr(1)\<close> throws \<open>out_of_range\<close> on
  an empty \<open>arg\<close>.
\<close>

function tryGroupOrPrefix ::
  "externals \<Rightarrow> CommandLine \<Rightarrow> store \<Rightarrow> string \<Rightarrow> string \<Rightarrow>
     cpp_error + (Option option \<times> string \<times> string \<times> store)" where
  "tryGroupOrPrefix ext cl h arg v =
     (case findOption cl (take 1 arg) v of
        (None, v1) \<Rightarrow> Inr (None, arg, v1, h)
      | (Some option, v1) \<Rightarrow>
          if arg = [] then Inl (out_of_range ''basic_string_view::substr'')
          else if expectsValue h option \<or> drop 1 arg = [] then
            Inr (Some option, arg,
                 (if drop 1 arg \<noteq> [] \<and> hd (drop 1 arg) = CHR ''='' then drop 1 (drop 1 arg)
                  else drop 1 arg), h)
          else
            tryGroupOrPrefix ext cl (fst (Option_set ext h option (take 1 arg) [])) (drop 1 arg)
              (drop 1 arg))"
  by pat_completeness auto
termination
  by (relation "measure (\<lambda>(ext, cl, h, arg, v). length arg)") auto

declare tryGroupOrPrefix.simps [simp del]

text \<open>
  \<open>findNearestMatch(arg)\<close>: the loop over \<open>optionMap\<close> keeps the first key (in
  iteration order) with the least distance below 5.
\<close>

definition findNearestMatch :: "externals \<Rightarrow> CommandLine \<Rightarrow> string \<Rightarrow> string" where
  "findNearestMatch ext cl arg0 =
     (if length arg0 \<le> 2 then []
      else
        (let arg = (case find_first_of arg0 CHR ''='' of
                      Some equalsIndex \<Rightarrow> take equalsIndex arg0
                    | None \<Rightarrow> arg0);
             best = foldl
               (\<lambda>(bestName, bestDistance) (key, val).
                  (let dist = editDistance ext key arg True bestDistance
                   in if dist < bestDistance then (key, dist) else (bestName, bestDistance)))
               ([], 5) (optionMap cl);
             bestName = fst best
         in if bestName = [] then []
            else if length bestName = 1 then ''-'' @ bestName
            else ''--'' @ bestName))"

subsection \<open>The messages of \<open>parse\<close>\<close>

definition prefixedError :: "string \<Rightarrow> string \<Rightarrow> string" where
  "prefixedError prog result = prog @ '': '' @ result"

definition unknownArgumentError :: "string \<Rightarrow> string \<Rightarrow> string \<Rightarrow> string" where
  "unknownArgumentError prog arg nearest =
     prog @ '': unknown command line argument '' @ fmt_quoted arg @
     (if nearest \<noteq> [] then '', did you mean '' @ fmt_quoted nearest @ ''?'' else [])"

definition noValueError :: "string \<Rightarrow> string \<Rightarrow> string" where
  "noValueError prog name = prog @ '': no value provided for argument '' @ fmt_quoted name"

definition positionalError :: "string \<Rightarrow> string \<Rightarrow> string" where
  "positionalError prog arg =
     prog @ '': positional arguments are not allowed (see e.g. '' @ fmt_quoted arg @ '')''"

subsection \<open>parse(span<const string_view> args)\<close>

text \<open>The local variables of \<open>parse\<close>, with the object and the store it changes.\<close>

record ParseState =
  cmd :: CommandLine
  heap :: store
  positionalArgs :: "string list"
  expectingVal :: "Option option"
  expectingValName :: string
  doubleDash :: bool
  hadUnknowns :: bool

definition add_error :: "string \<Rightarrow> ParseState \<Rightarrow> ParseState" where
  "add_error msg s = s\<lparr>cmd := (cmd s)\<lparr>errors := errors (cmd s) @ [msg]\<rparr>\<rparr>"

definition add_error_unless_empty :: "string \<Rightarrow> ParseState \<Rightarrow> ParseState" where
  "add_error_unless_empty result s =
     (if result \<noteq> [] then add_error (prefixedError (programName (cmd s)) result) s else s)"

text \<open>
  The name look-up of one option argument (the loop body from "Get the raw name" to the
  call of \<open>tryGroupOrPrefix\<close>), for an \<open>arg\<close> of at least two characters: the option
  found, \<open>arg\<close> and \<open>value\<close> afterwards, and the store.
\<close>

definition resolveOption ::
  "externals \<Rightarrow> CommandLine \<Rightarrow> store \<Rightarrow> string \<Rightarrow>
     cpp_error + (Option option \<times> string \<times> string \<times> store)" where
  "resolveOption ext cl h arg =
     (let longName = (hd (drop 1 arg) = CHR ''-'');
          name = (if longName then drop 1 (drop 1 arg) else drop 1 arg)
      in case findOption cl name [] of
           (option, v) \<Rightarrow>
             if option = None \<and> \<not> longName then
               (case tryGroupOrPrefix ext cl h name v of
                  Inl e \<Rightarrow> Inl e
                | Inr (option', name', v', h') \<Rightarrow>
                    Inr (option', (if option' \<noteq> None then name' else arg), v', h'))
             else Inr (option, arg, v, h))"

text \<open>One iteration of the loop over the arguments after the program name.\<close>

definition step :: "externals \<Rightarrow> ParseState \<Rightarrow> string \<Rightarrow> cpp_error + ParseState" where
  "step ext s arg =
     (case expectingVal s of
        Some ev \<Rightarrow>
          (case Option_set ext (heap s) ev (expectingValName s) arg of
             (h', result) \<Rightarrow>
               Inr ((add_error_unless_empty result (s\<lparr>heap := h'\<rparr>))\<lparr>expectingVal := None\<rparr>))
      | None \<Rightarrow>
          if length arg \<le> 1 \<or> hd arg \<noteq> CHR ''-'' \<or> doubleDash s then
            Inr (s\<lparr>positionalArgs := positionalArgs s @ [arg]\<rparr>)
          else if arg = ''--'' then Inr (s\<lparr>doubleDash := True\<rparr>)
          else
            (case resolveOption ext (cmd s) (heap s) arg of
               Inl e \<Rightarrow> Inl e
             | Inr (None, arg', v, h') \<Rightarrow>
                 Inr (add_error
                        (unknownArgumentError (programName (cmd s)) arg'
                           (findNearestMatch ext (cmd s) arg'))
                        (s\<lparr>heap := h', hadUnknowns := True\<rparr>))
             | Inr (Some option, arg', v, h') \<Rightarrow>
                 if v = [] \<and> expectsValue h' option then
                   Inr (s\<lparr>heap := h', expectingVal := Some option, expectingValName := arg'\<rparr>)
                 else
                   (case Option_set ext h' option arg' v of
                      (h'', result) \<Rightarrow> Inr (add_error_unless_empty result (s\<lparr>heap := h''\<rparr>)))))"

fun parse_loop :: "externals \<Rightarrow> ParseState \<Rightarrow> string list \<Rightarrow> cpp_error + ParseState" where
  "parse_loop ext s [] = Inr s"
| "parse_loop ext s (arg # rest) =
     (case step ext s arg of Inl e \<Rightarrow> Inl e | Inr s' \<Rightarrow> parse_loop ext s' rest)"

text \<open>The state in which the loop starts: \<open>programName\<close> set, the locals initialised.\<close>

definition parse_init :: "CommandLine \<Rightarrow> store \<Rightarrow> string list \<Rightarrow> ParseState" where
  "parse_init cl h args =
     \<lparr>cmd = cl\<lparr>programName := path_filename (hd args)\<rparr>, heap = h, positionalArgs = [],
      expectingVal = None, expectingValName = [], doubleDash = False, hadUnknowns = False\<rparr>"

text \<open>What follows the loop: the pending value, then the positional arguments.\<close>

definition parse_finish :: "externals \<Rightarrow> ParseState \<Rightarrow> ParseState" where
  "parse_finish ext s =
     (let s1 = (if expectingVal s \<noteq> None then
                  add_error (noValueError (programName (cmd s)) (expectingValName s)) s
                else s)
      in case positional (cmd s1) of
           Some p \<Rightarrow>
             s1\<lparr>heap := foldl (\<lambda>h arg. fst (Option_set ext h p [] arg)) (heap s1) (positionalArgs s1)\<rparr>
         | None \<Rightarrow>
             if positionalArgs s1 \<noteq> [] \<and> \<not> hadUnknowns s1 then
               add_error (positionalError (programName (cmd s1)) (hd (positionalArgs s1))) s1
             else s1)"

text \<open>\<open>parse\<close>: an exception, or the returned flag with the object and the store.\<close>

definition parse :: "externals \<Rightarrow> CommandLine \<Rightarrow> store \<Rightarrow> string list \<Rightarrow>
    cpp_error + (bool \<times> CommandLine \<times> store)" where
  "parse ext cl h args =
     (if args = [] then Inl (runtime_error ''Expected at least one argument'')
      else if optionMap cl = [] then Inl (runtime_error ''No options defined'')
      else
        (case parse_loop ext (parse_init cl h args) (tl args) of
           Inl e \<Rightarrow> Inl e
         | Inr s \<Rightarrow>
             (let s' = parse_finish ext s
              in Inr (errors (cmd s') = [], cmd s', heap s'))))"

subsection \<open>Auxiliary notions for the properties of \<open>parse\<close>\<close>

text \<open>
  The loop body treats \<open>arg\<close> as the name of an option: no value is pending, and
  \<open>arg\<close> is neither positional nor the double dash.
\<close>

definition isOptionArgument :: "ParseState \<Rightarrow> string \<Rightarrow> bool" where
  "isOptionArgument s arg =
     (expectingVal s = None \<and> \<not> (length arg \<le> 1 \<or> hd arg \<noteq> CHR ''-'' \<or> doubleDash s) \<and>
      arg \<noteq> ''--'')"

text \<open>
  From one state of the loop to a later one the object keeps its options, its
  positional target and its program name, and its error list only grows at the end.
\<close>

definition extends :: "ParseState \<Rightarrow> ParseState \<Rightarrow> bool" where
  "extends s s' =
     (optionMap (cmd s') = optionMap (cmd s) \<and> positional (cmd s') = positional (cmd s) \<and>
      programName (cmd s') = programName (cmd s) \<and> prefix (errors (cmd s)) (errors (cmd s')))"

text \<open>
  The alternative that the variant holds (\<open>storage.index()\<close>), read off the target.
  \<open>Option::set\<close> keeps it, so two stores of the same run agree on it everywhere.
\<close>

fun target_index :: "Target \<Rightarrow> nat" where
  "target_index (OptBool t) = 0"
| "target_index (OptInt32 t) = 1"
| "target_index (OptUInt32 t) = 2"
| "target_index (OptInt64 t) = 3"
| "target_index (OptUInt64 t) = 4"
| "target_index (OptDouble t) = 5"
| "target_index (OptString t) = 6"
| "target_index (VecInt32 t) = 7"
| "target_index (VecUInt32 t) = 8"
| "target_index (VecInt64 t) = 9"
| "target_index (VecUInt64 t) = 10"
| "target_index (VecDouble t) = 11"
| "target_index (VecString t) = 12"

definition same_kinds :: "store \<Rightarrow> store \<Rightarrow> bool" where
  "same_kinds h1 h2 = (\<forall>a. target_index (h1 a) = target_index (h2 a))"

text \<open>
  What the command line says about each argument after the program name, read from
  the arguments alone, left to right: the value of the option before it, a positional
  argument (at most one character, no leading dash, or after a double dash), the double
  dash itself, an argument whose name no registered option has, or a known option. The
  two flags carried along say whether the option before is waiting for its value and
  whether the double dash has been passed; the name look-up uses the store only for
  the kinds of the targets, which never change.
\<close>

datatype ArgumentClass =
  ValueOfPrevious | PositionalArgument | DoubleDash | UnknownArgument | KnownOption

definition classify_arg ::
  "externals \<Rightarrow> CommandLine \<Rightarrow> store \<Rightarrow> bool \<times> bool \<Rightarrow> string \<Rightarrow> ArgumentClass \<times> (bool \<times> bool)" where
  "classify_arg ext cl h st arg =
     (case st of
        (pending, dashed) \<Rightarrow>
          if pending then (ValueOfPrevious, (False, dashed))
          else if length arg \<le> 1 \<or> hd arg \<noteq> CHR ''-'' \<or> dashed then
            (PositionalArgument, (False, dashed))
          else if arg = ''--'' then (DoubleDash, (False, True))
          else
            (case resolveOption ext cl h arg of
               Inr (Some option, arg', v, h') \<Rightarrow>
                 (KnownOption, (v = [] \<and> expectsValue h option, dashed))
             | _ \<Rightarrow> (UnknownArgument, (False, dashed))))"

fun classify ::
  "externals \<Rightarrow> CommandLine \<Rightarrow> store \<Rightarrow> bool \<times> bool \<Rightarrow> string list \<Rightarrow> ArgumentClass list" where
  "classify ext cl h st [] = []"
| "classify ext cl h st (arg # rest) =
     fst (classify_arg ext cl h st arg) # classify ext cl h (snd (classify_arg ext cl h st arg)) rest"

fun scan_after ::
  "externals \<Rightarrow> CommandLine \<Rightarrow> store \<Rightarrow> bool \<times> bool \<Rightarrow> string list \<Rightarrow> bool \<times> bool" where
  "scan_after ext cl h st [] = st"
| "scan_after ext cl h st (arg # rest) =
     scan_after ext cl h (snd (classify_arg ext cl h st arg)) rest"

text \<open>
  The positional arguments in the order given, whether some argument is unknown, and
  whether the last option is left waiting for a value.
\<close>

definition positionalArguments :: "externals \<Rightarrow> CommandLine \<Rightarrow> store \<Rightarrow> string list \<Rightarrow> string list" where
  "positionalArguments ext cl h args =
     map fst (filter (\<lambda>p. snd p = PositionalArgument)
       (zip args (classify ext cl h (False, False) args)))"

definition hasUnknownArgument :: "externals \<Rightarrow> CommandLine \<Rightarrow> store \<Rightarrow> string list \<Rightarrow> bool" where
  "hasUnknownArgument ext cl h args =
     (UnknownArgument \<in> set (classify ext cl h (False, False) args))"

definition valuePending :: "externals \<Rightarrow> CommandLine \<Rightarrow> store \<Rightarrow> string list \<Rightarrow> bool" where
  "valuePending ext cl h args = fst (scan_after ext cl h (False, False) args)"


text \<open>The two flags as the loop holds them.\<close>

definition scan_state :: "ParseState \<Rightarrow> bool \<times> bool" where
  "scan_state s = (expectingVal s \<noteq> None, doubleDash s)"


text \<open>Two results of a look-up that differ at most in the values stored.\<close>

definition same_lookup ::
  "cpp_error + (Option option \<times> string \<times> string \<times> store) \<Rightarrow>
   cpp_error + (Option option \<times> string \<times> string \<times> store) \<Rightarrow> bool" where
  "same_lookup r1 r2 =
     (case (r1, r2) of
        (Inl e1, Inl e2) \<Rightarrow> e1 = e2
      | (Inr (o1, a1, v1, g1), Inr (o2, a2, v2, g2)) \<Rightarrow>
          o1 = o2 \<and> a1 = a2 \<and> v1 = v2 \<and> same_kinds g1 g2
      | _ \<Rightarrow> False)"


text \<open>The entry that a message from \<open>Option::set\<close> becomes, if it is not empty.\<close>

definition entry_if :: "string \<Rightarrow> string \<Rightarrow> string list" where
  "entry_if prog result = (if result \<noteq> [] then [prefixedError prog result] else [])"


text \<open>What a caller sees of a call that returned: the flag and the error list.\<close>

definition parse_outcome ::
  "cpp_error + (bool \<times> CommandLine \<times> store) \<Rightarrow> (bool \<times> string list) option" where
  "parse_outcome r = (case r of Inl e \<Rightarrow> None | Inr (ok, cl, h) \<Rightarrow> Some (ok, errors cl))"

text \<open>
  A concrete command line: a flag \<open>-a\<close> and a 32-bit count \<open>-c\<close>/\<open>--count\<close>, no
  positional target. The two external functions are stand-ins that the example inputs
  never reach (no floating-point option, no unknown argument longer than two
  characters).
\<close>

definition example_externals :: externals where
  "example_externals = \<lparr>strtod = (\<lambda>str. (NaN, 0)), editDistance = (\<lambda>a b r m. m)\<rparr>"

definition example_flag :: Option where
  "example_flag = \<lparr>desc = ''a flag'', valueName = [], allArgNames = ''-a'', storage = 0\<rparr>"

definition example_count :: Option where
  "example_count = \<lparr>desc = ''a count'', valueName = ''<n>'', allArgNames = ''-c,--count'', storage = 1\<rparr>"

definition example_commandLine :: CommandLine where
  "example_commandLine =
     \<lparr>optionMap = [(''a'', example_flag), (''c'', example_count), (''count'', example_count)],
      orderedOptions = [example_flag, example_count], positional = None,
      programName = [], errors = []\<rparr>"

definition example_store :: store where
  "example_store = (\<lambda>a. OptBool None)(1 := OptInt32 None)"

definition example_args :: "string list" where
  "example_args = [''/usr/bin/slang'', ''-x'', ''--count'', ''abc'', ''-c=zz'', ''--count'']"

subsection \<open>\<open>parse\<close> does not throw on a non-empty list with options\<close>

lemma tryGroupOrPrefix_total:
  "arg \<noteq> [] \<Longrightarrow> \<exists>r. tryGroupOrPrefix ext cl h arg v = Inr r"
proof (induction ext cl h arg v rule: tryGroupOrPrefix.induct)
  case (1 ext cl h arg v)
  obtain o1 v1 where f: "findOption cl (take 1 arg) v = (o1, v1)"
    by (cases "findOption cl (take 1 arg) v") auto
  show ?case
  proof (cases o1)
    case None
    with f show ?thesis
      by (simp add: tryGroupOrPrefix.simps [of ext cl h arg v])
  next
    case (Some opt)
    show ?thesis
    proof (cases "expectsValue h opt \<or> drop 1 arg = []")
      case True
      with f Some "1.prems" show ?thesis
        by (simp add: tryGroupOrPrefix.simps [of ext cl h arg v])
    next
      case False
      with "1.IH" [OF f [symmetric] Some "1.prems"] f Some "1.prems" show ?thesis
        by (simp add: tryGroupOrPrefix.simps [of ext cl h arg v])
    qed
  qed
qed

lemma resolveOption_total:
  "1 < length arg \<Longrightarrow> \<exists>r. resolveOption ext cl h arg = Inr r"
proof -
  assume len: "1 < length arg"
  then have ne: "drop 1 arg \<noteq> []" by simp
  obtain o1 v1 where f: "findOption cl (if hd (drop 1 arg) = CHR ''-'' then drop 1 (drop 1 arg) else drop 1 arg) [] = (o1, v1)"
    by (cases "findOption cl (if hd (drop 1 arg) = CHR ''-'' then drop 1 (drop 1 arg) else drop 1 arg) []") auto
  show ?thesis
  proof (cases "o1 = None \<and> hd (drop 1 arg) \<noteq> CHR ''-''")
    case True
    obtain r where "tryGroupOrPrefix ext cl h (drop 1 arg) v1 = Inr r"
      using tryGroupOrPrefix_total [OF ne] by blast
    with True f show ?thesis
      by (cases r) (simp add: resolveOption_def Let_def)
  next
    case False
    with f show ?thesis
      by (auto simp add: resolveOption_def Let_def)
  qed
qed

lemma extends_refl: "extends s s"
  by (simp add: extends_def)

lemma extends_trans: "extends a b \<Longrightarrow> extends b c \<Longrightarrow> extends a c"
  by (auto simp: extends_def)

lemma extends_add_error: "extends s (add_error msg s)"
  by (simp add: extends_def add_error_def)

lemma extends_add_error_unless_empty: "extends s (add_error_unless_empty r s)"
  by (simp add: add_error_unless_empty_def extends_add_error extends_refl)

lemma step_total: "\<exists>s'. step ext s arg = Inr s'"
proof (cases "expectingVal s")
  case (Some ev)
  then show ?thesis
    by (simp add: step_def split: prod.splits)
next
  case None
  show ?thesis
  proof (cases "length arg \<le> 1 \<or> hd arg \<noteq> CHR ''-'' \<or> doubleDash s \<or> arg = ''--''")
    case True
    with None show ?thesis
      by (auto simp add: step_def)
  next
    case False
    then have "1 < length arg" by simp
    then obtain r where "resolveOption ext (cmd s) (heap s) arg = Inr r"
      using resolveOption_total by blast
    with None False show ?thesis
      by (auto simp add: step_def split: prod.splits option.splits)
  qed
qed

lemma step_extends: "step ext s arg = Inr s' \<Longrightarrow> extends s s'"
  by (auto simp: step_def extends_def add_error_def add_error_unless_empty_def
      split: option.splits prod.splits if_splits sum.splits)

lemma parse_loop_total: "\<exists>s'. parse_loop ext s args = Inr s'"
proof (induction args arbitrary: s)
  case Nil
  show ?case by simp
next
  case (Cons a args)
  obtain s1 where "step ext s a = Inr s1"
    using step_total by blast
  with Cons [of s1] show ?case by simp
qed

lemma parse_loop_extends: "parse_loop ext s args = Inr s' \<Longrightarrow> extends s s'"
proof (induction args arbitrary: s)
  case Nil
  then show ?case by (simp add: extends_refl)
next
  case (Cons a args)
  then obtain s1 where s1: "step ext s a = Inr s1" "parse_loop ext s1 args = Inr s'"
    by (auto split: sum.splits)
  from step_extends [OF s1(1)] Cons.IH [OF s1(2)] show ?case
    by (rule extends_trans)
qed

lemma parse_loop_append:
  "parse_loop ext s (xs @ ys) =
     (case parse_loop ext s xs of Inl e \<Rightarrow> Inl e | Inr s' \<Rightarrow> parse_loop ext s' ys)"
  by (induction xs arbitrary: s) (auto split: sum.splits)

subsection \<open>What each iteration records\<close>

lemma findOption_optionMap:
  "optionMap cl1 = optionMap cl2 \<Longrightarrow> findOption cl1 arg v = findOption cl2 arg v"
  unfolding findOption_def by (simp only:)

lemma tryGroupOrPrefix_optionMap:
  "optionMap cl1 = optionMap cl2 \<Longrightarrow>
     tryGroupOrPrefix ext cl1 h arg v = tryGroupOrPrefix ext cl2 h arg v"
proof (induction ext cl1 h arg v rule: tryGroupOrPrefix.induct)
  case (1 ext cl1 h arg v)
  have f: "findOption cl1 (take 1 arg) v = findOption cl2 (take 1 arg) v"
    using "1.prems" by (rule findOption_optionMap)
  show ?case
  proof (cases "findOption cl2 (take 1 arg) v")
    case (Pair o1 v1)
    show ?thesis
    proof (cases o1)
      case None
      with Pair f show ?thesis
        by (simp add: tryGroupOrPrefix.simps [of ext cl1 h arg v]
            tryGroupOrPrefix.simps [of ext cl2 h arg v])
    next
      case (Some opt)
      show ?thesis
      proof (cases "arg = [] \<or> expectsValue h opt \<or> drop 1 arg = []")
        case True
        with Pair f Some show ?thesis
          by (auto simp add: tryGroupOrPrefix.simps [of ext cl1 h arg v]
              tryGroupOrPrefix.simps [of ext cl2 h arg v])
      next
        case False
        have "tryGroupOrPrefix ext cl1 (fst (Option_set ext h opt (take 1 arg) [])) (drop 1 arg) (drop 1 arg)
            = tryGroupOrPrefix ext cl2 (fst (Option_set ext h opt (take 1 arg) [])) (drop 1 arg) (drop 1 arg)"
        proof (rule "1.IH" [OF _ Some _ _ "1.prems"])
          show "(o1, v1) = findOption cl1 (take 1 arg) v"
            using Pair f by simp
          show "arg \<noteq> []"
            using False by simp
          show "\<not> (expectsValue h opt \<or> drop 1 arg = [])"
            using False by simp
        qed
        with Pair f Some False show ?thesis
          by (simp add: tryGroupOrPrefix.simps [of ext cl1 h arg v]
              tryGroupOrPrefix.simps [of ext cl2 h arg v])
      qed
    qed
  qed
qed

lemma resolveOption_optionMap:
  "optionMap cl1 = optionMap cl2 \<Longrightarrow> resolveOption ext cl1 h arg = resolveOption ext cl2 h arg"
  unfolding resolveOption_def
  by (simp only: findOption_optionMap [of cl1 cl2] tryGroupOrPrefix_optionMap [of cl1 cl2])

lemma findNearestMatch_optionMap:
  "optionMap cl1 = optionMap cl2 \<Longrightarrow> findNearestMatch ext cl1 arg = findNearestMatch ext cl2 arg"
  unfolding findNearestMatch_def by (simp only:)

lemma resolveOption_None_arg:
  "resolveOption ext cl h arg = Inr (None, arg', v, h1) \<Longrightarrow> arg' = arg"
  by (auto simp: resolveOption_def Let_def split: prod.splits if_splits sum.splits)

lemma step_pending_error:
  assumes "expectingVal s = Some ev"
    and "snd (Option_set ext (heap s) ev (expectingValName s) arg) \<noteq> []"
    and "step ext s arg = Inr s'"
  shows "errors (cmd s') = errors (cmd s) @
           [prefixedError (programName (cmd s)) (snd (Option_set ext (heap s) ev (expectingValName s) arg))]"
  using assms
  by (auto simp: step_def add_error_unless_empty_def add_error_def split: prod.splits)

lemma step_unknown_error:
  assumes "isOptionArgument s arg"
    and "resolveOption ext (cmd s) (heap s) arg = Inr (None, arg', v, h1)"
    and "step ext s arg = Inr s'"
  shows "errors (cmd s') = errors (cmd s) @
           [unknownArgumentError (programName (cmd s)) arg (findNearestMatch ext (cmd s) arg)]"
    and "hadUnknowns s'"
  using assms resolveOption_None_arg [OF assms(2)]
  by (auto simp: step_def isOptionArgument_def add_error_def)

lemma step_inline_error:
  assumes "isOptionArgument s arg"
    and "resolveOption ext (cmd s) (heap s) arg = Inr (Some opt, arg', v, h1)"
    and "\<not> (v = [] \<and> expectsValue h1 opt)"
    and "snd (Option_set ext h1 opt arg' v) \<noteq> []"
    and "step ext s arg = Inr s'"
  shows "errors (cmd s') = errors (cmd s) @
           [prefixedError (programName (cmd s)) (snd (Option_set ext h1 opt arg' v))]"
  using assms
  by (auto simp: step_def isOptionArgument_def add_error_unless_empty_def add_error_def
      split: prod.splits)

lemma parse_finish_errors:
  "errors (cmd (parse_finish ext s)) =
     errors (cmd s)
     @ (if expectingVal s \<noteq> None then [noValueError (programName (cmd s)) (expectingValName s)] else [])
     @ (if positional (cmd s) = None \<and> positionalArgs s \<noteq> [] \<and> \<not> hadUnknowns s
        then [positionalError (programName (cmd s)) (hd (positionalArgs s))] else [])"
  by (auto simp: parse_finish_def add_error_def Let_def split: option.splits)

lemma parse_finish_programName:
  "programName (cmd (parse_finish ext s)) = programName (cmd s)"
  by (auto simp: parse_finish_def add_error_def Let_def split: option.splits)

lemma parse_loop_split:
  assumes "parse_loop ext s0 (pre @ arg # post) = Inr s"
    and "parse_loop ext s0 pre = Inr sp"
  shows "\<exists>s1. step ext sp arg = Inr s1 \<and> extends s0 sp \<and> extends s1 s"
proof -
  from assms have "parse_loop ext sp (arg # post) = Inr s"
    by (simp add: parse_loop_append)
  then obtain s1 where s1: "step ext sp arg = Inr s1" "parse_loop ext s1 post = Inr s"
    by (auto split: sum.splits)
  with parse_loop_extends [OF assms(2)] parse_loop_extends [OF s1(2)] show ?thesis
    by blast
qed

lemma appended_in_final:
  assumes "errors (cmd s1) = errors (cmd sp) @ [msg]" and "extends s1 s"
  shows "msg \<in> set (errors (cmd s))"
proof -
  from assms(2) have "prefix (errors (cmd s1)) (errors (cmd s))"
    by (simp add: extends_def)
  then have "set (errors (cmd s1)) \<subseteq> set (errors (cmd s))"
    by (rule set_mono_prefix)
  with assms(1) show ?thesis by auto
qed

subsection \<open>The loop agrees with the reading of the arguments\<close>

lemma same_kinds_refl: "same_kinds h h"
  by (simp add: same_kinds_def)

lemma same_kinds_sym: "same_kinds a b \<Longrightarrow> same_kinds b a"
  by (simp add: same_kinds_def)

lemma same_kinds_trans: "same_kinds a b \<Longrightarrow> same_kinds b c \<Longrightarrow> same_kinds a c"
  by (simp add: same_kinds_def)

lemma set_target_index: "target_index (fst (set_target ext t name v)) = target_index t"
  by (cases t) (simp_all split: prod.splits)

lemma Option_set_same_kinds: "same_kinds h (fst (Option_set ext h opt name v))"
  using set_target_index [of ext "h (storage opt)" name v]
  by (auto simp: Option_set_def same_kinds_def split: prod.splits)

lemma expectsValue_index: "expectsValue h opt = (target_index (h (storage opt)) \<noteq> 0)"
  by (cases "h (storage opt)") (simp_all add: expectsValue_def)

lemma expectsValue_same_kinds: "same_kinds h1 h2 \<Longrightarrow> expectsValue h1 opt = expectsValue h2 opt"
  by (simp add: expectsValue_index same_kinds_def)

lemma tryGroupOrPrefix_same_kinds:
  "same_kinds h1 h2 \<Longrightarrow>
     same_lookup (tryGroupOrPrefix ext cl h1 arg v) (tryGroupOrPrefix ext cl h2 arg v)"
proof (induction ext cl h1 arg v arbitrary: h2 rule: tryGroupOrPrefix.induct)
  case (1 ext cl h1 arg v)
  show ?case
  proof (cases "findOption cl (take 1 arg) v")
    case (Pair o1 v1)
    show ?thesis
    proof (cases o1)
      case None
      with Pair "1.prems" show ?thesis
        by (simp add: tryGroupOrPrefix.simps [of ext cl h1 arg v]
            tryGroupOrPrefix.simps [of ext cl h2 arg v] same_lookup_def)
    next
      case (Some opt)
      have ev: "expectsValue h1 opt = expectsValue h2 opt"
        using "1.prems" by (rule expectsValue_same_kinds)
      show ?thesis
      proof (cases "arg = [] \<or> expectsValue h1 opt \<or> drop 1 arg = []")
        case True
        with Pair Some ev "1.prems" show ?thesis
          by (auto simp add: tryGroupOrPrefix.simps [of ext cl h1 arg v]
              tryGroupOrPrefix.simps [of ext cl h2 arg v] same_lookup_def)
      next
        case False
        have sk: "same_kinds (fst (Option_set ext h1 opt (take 1 arg) []))
                    (fst (Option_set ext h2 opt (take 1 arg) []))"
          using Option_set_same_kinds [of h1 ext opt "take 1 arg" "[]", THEN same_kinds_sym]
            "1.prems" Option_set_same_kinds [of h2 ext opt "take 1 arg" "[]"]
          by (blast intro: same_kinds_trans)
        have "same_lookup
           (tryGroupOrPrefix ext cl (fst (Option_set ext h1 opt (take 1 arg) [])) (drop 1 arg) (drop 1 arg))
           (tryGroupOrPrefix ext cl (fst (Option_set ext h2 opt (take 1 arg) [])) (drop 1 arg) (drop 1 arg))"
        proof (rule "1.IH" [OF _ Some _ _ sk])
          show "(o1, v1) = findOption cl (take 1 arg) v"
            using Pair by simp
          show "arg \<noteq> []"
            using False by simp
          show "\<not> (expectsValue h1 opt \<or> drop 1 arg = [])"
            using False by simp
        qed
        with Pair Some False ev show ?thesis
          by (simp add: tryGroupOrPrefix.simps [of ext cl h1 arg v]
              tryGroupOrPrefix.simps [of ext cl h2 arg v])
      qed
    qed
  qed
qed

lemma resolveOption_same_kinds:
  assumes "same_kinds h1 h2"
  shows "same_lookup (resolveOption ext cl h1 arg) (resolveOption ext cl h2 arg)"
proof -
  have t: "same_lookup (tryGroupOrPrefix ext cl h1 a v) (tryGroupOrPrefix ext cl h2 a v)" for a v
    using assms by (rule tryGroupOrPrefix_same_kinds)
  show ?thesis
  proof (cases "findOption cl (if hd (drop 1 arg) = CHR ''-'' then drop 1 (drop 1 arg) else drop 1 arg) []")
    case (Pair o1 v1)
    show ?thesis
    proof (cases "o1 = None \<and> hd (drop 1 arg) \<noteq> CHR ''-''")
      case True
      with Pair t [of "drop 1 arg" v1] show ?thesis
        by (auto simp: resolveOption_def Let_def same_lookup_def split: sum.splits prod.splits)
    next
      case False
      with Pair assms show ?thesis
        by (auto simp: resolveOption_def Let_def same_lookup_def)
    qed
  qed
qed

lemma add_error_fields:
  "heap (add_error msg s) = heap s"
  "positionalArgs (add_error msg s) = positionalArgs s"
  "expectingVal (add_error msg s) = expectingVal s"
  "expectingValName (add_error msg s) = expectingValName s"
  "doubleDash (add_error msg s) = doubleDash s"
  "hadUnknowns (add_error msg s) = hadUnknowns s"
  by (simp_all add: add_error_def)

lemma add_error_unless_empty_fields:
  "heap (add_error_unless_empty r s) = heap s"
  "positionalArgs (add_error_unless_empty r s) = positionalArgs s"
  "expectingVal (add_error_unless_empty r s) = expectingVal s"
  "expectingValName (add_error_unless_empty r s) = expectingValName s"
  "doubleDash (add_error_unless_empty r s) = doubleDash s"
  "hadUnknowns (add_error_unless_empty r s) = hadUnknowns s"
  by (simp_all add: add_error_unless_empty_def add_error_fields)

lemma tryGroupOrPrefix_keeps_kinds:
  "tryGroupOrPrefix ext cl h arg v = Inr (opt, a, v', h') \<Longrightarrow> same_kinds h h'"
proof (induction ext cl h arg v rule: tryGroupOrPrefix.induct)
  case (1 ext cl h arg v)
  show ?case
  proof (cases "findOption cl (take 1 arg) v")
    case (Pair o1 v1)
    show ?thesis
    proof (cases o1)
      case None
      with Pair "1.prems" show ?thesis
        by (simp add: tryGroupOrPrefix.simps [of ext cl h arg v] same_kinds_refl)
    next
      case (Some option)
      show ?thesis
      proof (cases "arg = [] \<or> expectsValue h option \<or> drop 1 arg = []")
        case True
        with Pair Some "1.prems" show ?thesis
          by (auto simp add: tryGroupOrPrefix.simps [of ext cl h arg v] same_kinds_refl
              split: if_splits)
      next
        case False
        with Pair Some "1.prems"
        have rec: "tryGroupOrPrefix ext cl (fst (Option_set ext h option (take 1 arg) []))
                     (drop 1 arg) (drop 1 arg) = Inr (opt, a, v', h')"
          by (simp add: tryGroupOrPrefix.simps [of ext cl h arg v])
        have "same_kinds (fst (Option_set ext h option (take 1 arg) [])) h'"
        proof (rule "1.IH" [OF _ Some _ _ rec])
          show "(o1, v1) = findOption cl (take 1 arg) v"
            using Pair by simp
          show "arg \<noteq> []"
            using False by simp
          show "\<not> (expectsValue h option \<or> drop 1 arg = [])"
            using False by simp
        qed
        with Option_set_same_kinds [of h ext option "take 1 arg" "[]"] show ?thesis
          by (rule same_kinds_trans)
      qed
    qed
  qed
qed

lemma resolveOption_keeps_kinds:
  "resolveOption ext cl h arg = Inr (opt, a, v, h') \<Longrightarrow> same_kinds h h'"
  by (auto simp: resolveOption_def Let_def same_kinds_refl
      split: prod.splits if_splits sum.splits dest: tryGroupOrPrefix_keeps_kinds)

lemma resolveOption_transfer:
  assumes "same_kinds h g" and "resolveOption ext cl g arg = Inr (opt, a, v, g')"
  shows "\<exists>h'. resolveOption ext cl h arg = Inr (opt, a, v, h')"
  using resolveOption_same_kinds [OF assms(1), of ext cl arg] assms(2)
  by (auto simp: same_lookup_def split: sum.splits)

lemma step_classify:
  assumes st: "step ext s arg = Inr s1"
    and sk: "same_kinds h (heap s)"
    and om: "optionMap (cmd s) = optionMap cl"
  shows "scan_state s1 = snd (classify_arg ext cl h (scan_state s) arg)
    \<and> positionalArgs s1 =
        positionalArgs s @
        (if fst (classify_arg ext cl h (scan_state s) arg) = PositionalArgument then [arg] else [])
    \<and> hadUnknowns s1 =
        (hadUnknowns s \<or> fst (classify_arg ext cl h (scan_state s) arg) = UnknownArgument)
    \<and> same_kinds h (heap s1)"
proof (cases "expectingVal s")
  case (Some ev)
  have "same_kinds h (fst (Option_set ext (heap s) ev (expectingValName s) arg))"
    using sk Option_set_same_kinds by (rule same_kinds_trans)
  with Some st show ?thesis
    by (auto simp: step_def scan_state_def classify_arg_def add_error_unless_empty_fields
        split: prod.splits)
next
  case None
  show ?thesis
  proof (cases "length arg \<le> 1 \<or> hd arg \<noteq> CHR ''-'' \<or> doubleDash s \<or> arg = ''--''")
    case True
    with None st sk show ?thesis
      by (auto simp: step_def scan_state_def classify_arg_def)
  next
    case False
    then have len: "1 < length arg"
      by simp
    obtain opt a v g' where r: "resolveOption ext cl (heap s) arg = Inr (opt, a, v, g')"
      using resolveOption_total [OF len, of ext cl "heap s"] by (metis prod_cases4)
    have r': "resolveOption ext (cmd s) (heap s) arg = Inr (opt, a, v, g')"
      using r resolveOption_optionMap [OF om] by simp
    obtain h' where rh: "resolveOption ext cl h arg = Inr (opt, a, v, h')"
      using resolveOption_transfer [OF sk r] by blast
    have kg: "same_kinds h g'"
      using sk resolveOption_keeps_kinds [OF r] by (rule same_kinds_trans)
    show ?thesis
    proof (cases opt)
      case None': None
      with None False st r' rh kg show ?thesis
        by (auto simp: step_def scan_state_def classify_arg_def add_error_fields)
    next
      case (Some option)
      have ev: "expectsValue h option = expectsValue g' option"
        using kg by (rule expectsValue_same_kinds)
      have ks: "same_kinds h (fst (Option_set ext g' option a v))"
        using kg Option_set_same_kinds by (rule same_kinds_trans)
      from None False st r' rh kg Some ev ks show ?thesis
        by (auto simp: step_def scan_state_def classify_arg_def add_error_unless_empty_fields
            split: prod.splits if_splits)
    qed
  qed
qed

lemma parse_loop_classify:
  "parse_loop ext s args = Inr s' \<Longrightarrow> same_kinds h (heap s) \<Longrightarrow>
   optionMap (cmd s) = optionMap cl \<Longrightarrow>
     scan_state s' = scan_after ext cl h (scan_state s) args
   \<and> positionalArgs s' =
       positionalArgs s @
       map fst (filter (\<lambda>p. snd p = PositionalArgument)
         (zip args (classify ext cl h (scan_state s) args)))
   \<and> hadUnknowns s' =
       (hadUnknowns s \<or> UnknownArgument \<in> set (classify ext cl h (scan_state s) args))
   \<and> same_kinds h (heap s')"
proof (induction args arbitrary: s)
  case Nil
  then show ?case by simp
next
  case (Cons arg rest)
  from Cons.prems(1) obtain s1 where s1: "step ext s arg = Inr s1" "parse_loop ext s1 rest = Inr s'"
    by (auto split: sum.splits)
  note one = step_classify [OF s1(1) Cons.prems(2,3)]
  have om1: "optionMap (cmd s1) = optionMap cl"
    using step_extends [OF s1(1)] Cons.prems(3) by (simp add: extends_def)
  from one have sk1: "same_kinds h (heap s1)"
    by simp
  note rest = Cons.IH [OF s1(2) sk1 om1]
  from one rest show ?case
    by auto
qed

lemma classify_length: "length (classify ext cl h st args) = length args"
  by (induction args arbitrary: st) simp_all

lemma classify_append:
  "classify ext cl h st (pre @ rest) =
     classify ext cl h st pre @ classify ext cl h (scan_after ext cl h st pre) rest"
  by (induction pre arbitrary: st) simp_all

lemma classify_nth:
  "classify ext cl h st (pre @ arg # post) ! length pre =
     fst (classify_arg ext cl h (scan_after ext cl h st pre) arg)"
  by (simp add: classify_append nth_append classify_length)

lemma classify_arg_Unknown:
  assumes "fst (classify_arg ext cl h (scan_state sp) arg) = UnknownArgument"
    and "same_kinds h (heap sp)"
  shows "isOptionArgument sp arg \<and>
         (\<exists>a v g. resolveOption ext cl (heap sp) arg = Inr (None, a, v, g))"
proof -
  from assms(1) have io: "isOptionArgument sp arg"
    by (auto simp: classify_arg_def scan_state_def isOptionArgument_def
        split: if_splits sum.splits prod.splits option.splits)
  then have len: "1 < length arg"
    by (simp add: isOptionArgument_def)
  obtain opt a v g where r: "resolveOption ext cl (heap sp) arg = Inr (opt, a, v, g)"
    using resolveOption_total [OF len, of ext cl "heap sp"] by (metis prod_cases4)
  obtain h' where rh: "resolveOption ext cl h arg = Inr (opt, a, v, h')"
    using resolveOption_transfer [OF assms(2) r] by blast
  from assms(1) io rh have "opt = None"
    by (cases opt) (auto simp: classify_arg_def scan_state_def isOptionArgument_def)
  with io r show ?thesis
    by blast
qed

lemma add_error_errors: "errors (cmd (add_error msg s)) = errors (cmd s) @ [msg]"
  by (simp add: add_error_def)

lemma add_error_unless_empty_errors:
  "errors (cmd (add_error_unless_empty r s)) = errors (cmd s) @ entry_if (programName (cmd s)) r"
  by (simp add: add_error_unless_empty_def add_error_def entry_if_def)

lemma step_account:
  assumes st: "step ext s arg = Inr s1"
    and sk: "same_kinds h (heap s)"
    and om: "optionMap (cmd s) = optionMap cl"
  shows "errors (cmd s1) =
     errors (cmd s) @
     (case fst (classify_arg ext cl h (scan_state s) arg) of
        PositionalArgument \<Rightarrow> []
      | DoubleDash \<Rightarrow> []
      | UnknownArgument \<Rightarrow>
          [unknownArgumentError (programName (cmd s)) arg (findNearestMatch ext cl arg)]
      | ValueOfPrevious \<Rightarrow>
          (case expectingVal s of
             None \<Rightarrow> []
           | Some ev \<Rightarrow>
               entry_if (programName (cmd s))
                 (snd (Option_set ext (heap s) ev (expectingValName s) arg)))
      | KnownOption \<Rightarrow>
          (case resolveOption ext cl (heap s) arg of
             Inr (Some opt, a, v, g) \<Rightarrow>
               if v = [] \<and> expectsValue g opt then []
               else entry_if (programName (cmd s)) (snd (Option_set ext g opt a v))
           | _ \<Rightarrow> []))"
proof (cases "expectingVal s")
  case (Some ev)
  with st show ?thesis
    by (auto simp: step_def scan_state_def classify_arg_def add_error_unless_empty_errors
        split: prod.splits)
next
  case None
  show ?thesis
  proof (cases "length arg \<le> 1 \<or> hd arg \<noteq> CHR ''-'' \<or> doubleDash s \<or> arg = ''--''")
    case True
    with None st show ?thesis
      by (auto simp: step_def scan_state_def classify_arg_def split: if_splits)
  next
    case False
    then have len: "1 < length arg"
      by simp
    obtain opt a v g' where r: "resolveOption ext cl (heap s) arg = Inr (opt, a, v, g')"
      using resolveOption_total [OF len, of ext cl "heap s"] by (metis prod_cases4)
    have r': "resolveOption ext (cmd s) (heap s) arg = Inr (opt, a, v, g')"
      using r resolveOption_optionMap [OF om] by simp
    obtain h' where rh: "resolveOption ext cl h arg = Inr (opt, a, v, h')"
      using resolveOption_transfer [OF sk r] by blast
    have nm: "findNearestMatch ext (cmd s) arg = findNearestMatch ext cl arg"
      using om by (rule findNearestMatch_optionMap)
    show ?thesis
    proof (cases opt)
      case None': None
      with r have "a = arg"
        by (auto dest: resolveOption_None_arg)
      with None' None False st r r' rh nm show ?thesis
        by (auto simp: step_def scan_state_def classify_arg_def add_error_errors)
    next
      case (Some option)
      have kg: "same_kinds h g'"
        using sk resolveOption_keeps_kinds [OF r] by (rule same_kinds_trans)
      have ev: "expectsValue h option = expectsValue g' option"
        using kg by (rule expectsValue_same_kinds)
      from None False st r r' rh Some ev show ?thesis
        by (auto simp: step_def scan_state_def classify_arg_def add_error_unless_empty_errors
            split: prod.splits if_splits)
    qed
  qed
qed

lemma classify_at_index:
  assumes "i < length xs"
  shows "classify ext cl h st xs ! i =
           fst (classify_arg ext cl h (scan_after ext cl h st (take i xs)) (xs ! i))"
proof -
  have e: "take i xs @ xs ! i # drop (Suc i) xs = xs"
    using assms by (simp add: id_take_nth_drop [symmetric])
  have l: "length (take i xs) = i"
    using assms by simp
  show ?thesis
    using classify_nth [of ext cl h st "take i xs" "xs ! i" "drop (Suc i) xs"]
    unfolding e l .
qed

subsection \<open>The entries of the error list\<close>

lemma parse_reports_aux:
  assumes a: "args \<noteq> [] \<and> optionMap cl \<noteq> []"
  shows "\<exists>s cl' h'.
           parse_loop ext (parse_init cl h args) (tl args) = Inr s
         \<and> parse ext cl h args = Inr (errors cl' = [], cl', h')
         \<and> programName cl' = path_filename (hd args)
         \<and> prefix (errors cl) (errors (cmd s))
         \<and> positionalArgs s = positionalArguments ext cl h (tl args)
         \<and> hadUnknowns s = hasUnknownArgument ext cl h (tl args)
         \<and> (expectingVal s \<noteq> None) = valuePending ext cl h (tl args)
         \<and> errors cl' =
             errors (cmd s)
             @ (if valuePending ext cl h (tl args)
                then [noValueError (programName cl') (expectingValName s)] else [])
             @ (if positional cl = None \<and> positionalArguments ext cl h (tl args) \<noteq> [] \<and>
                   \<not> hasUnknownArgument ext cl h (tl args)
                then [positionalError (programName cl')
                        (hd (positionalArguments ext cl h (tl args)))]
                else [])
         \<and> (\<forall>i. i < length (tl args) \<and>
                  classify ext cl h (False, False) (tl args) ! i = UnknownArgument \<longrightarrow>
                unknownArgumentError (programName cl') (tl args ! i)
                  (findNearestMatch ext cl (tl args ! i)) \<in> set (errors cl'))
         \<and> errors (cmd (parse_init cl h args)) = errors cl
         \<and> (\<forall>pre arg post sp s1.
               tl args = pre @ arg # post \<and> parse_loop ext (parse_init cl h args) pre = Inr sp \<and>
               parse_loop ext (parse_init cl h args) (pre @ [arg]) = Inr s1 \<longrightarrow>
                 errors (cmd s1) =
                   errors (cmd sp) @
                   (case classify ext cl h (False, False) (tl args) ! length pre of
                      PositionalArgument \<Rightarrow> []
                    | DoubleDash \<Rightarrow> []
                    | UnknownArgument \<Rightarrow>
                        [unknownArgumentError (programName cl') arg (findNearestMatch ext cl arg)]
                    | ValueOfPrevious \<Rightarrow>
                        (case expectingVal sp of
                           None \<Rightarrow> []
                         | Some ev \<Rightarrow>
                             entry_if (programName cl')
                               (snd (Option_set ext (heap sp) ev (expectingValName sp) arg)))
                    | KnownOption \<Rightarrow>
                        (case resolveOption ext cl (heap sp) arg of
                           Inr (Some opt, a, v, g) \<Rightarrow>
                             if v = [] \<and> expectsValue g opt then []
                             else entry_if (programName cl') (snd (Option_set ext g opt a v))
                         | _ \<Rightarrow> [])))
         \<and> (\<forall>pre arg post sp.
               tl args = pre @ arg # post \<and> parse_loop ext (parse_init cl h args) pre = Inr sp \<longrightarrow>
                 (\<forall>ev. expectingVal sp = Some ev \<and>
                        snd (Option_set ext (heap sp) ev (expectingValName sp) arg) \<noteq> [] \<longrightarrow>
                    prefixedError (programName cl')
                      (snd (Option_set ext (heap sp) ev (expectingValName sp) arg))
                    \<in> set (errors cl'))
               \<and> (\<forall>arg' v h1. isOptionArgument sp arg \<and>
                        resolveOption ext cl (heap sp) arg = Inr (None, arg', v, h1) \<longrightarrow>
                    unknownArgumentError (programName cl') arg (findNearestMatch ext cl arg)
                    \<in> set (errors cl'))
               \<and> (\<forall>opt arg' v h1. isOptionArgument sp arg \<and>
                        resolveOption ext cl (heap sp) arg = Inr (Some opt, arg', v, h1) \<and>
                        \<not> (v = [] \<and> expectsValue h1 opt) \<and>
                        snd (Option_set ext h1 opt arg' v) \<noteq> [] \<longrightarrow>
                    prefixedError (programName cl') (snd (Option_set ext h1 opt arg' v))
                    \<in> set (errors cl')))"
proof -
  define s0 where "s0 = parse_init cl h args"
  obtain s where s: "parse_loop ext s0 (tl args) = Inr s"
    using parse_loop_total by blast
  define cl' where "cl' = cmd (parse_finish ext s)"
  define h' where "h' = heap (parse_finish ext s)"
  have s0: "optionMap (cmd s0) = optionMap cl" "positional (cmd s0) = positional cl"
    "programName (cmd s0) = path_filename (hd args)" "errors (cmd s0) = errors cl"
    by (simp_all add: s0_def parse_init_def)
  have ext0: "extends s0 s"
    using s by (rule parse_loop_extends)
  have res: "parse ext cl h args = Inr (errors cl' = [], cl', h')"
    using a s by (simp add: parse_def s0_def [symmetric] cl'_def h'_def Let_def)
  have prog_s: "programName (cmd s) = path_filename (hd args)"
    using ext0 s0 by (simp add: extends_def)
  have prog: "programName cl' = path_filename (hd args)"
    by (simp add: cl'_def parse_finish_programName prog_s)
  have pre: "prefix (errors cl) (errors (cmd s))"
    using ext0 s0 by (simp add: extends_def)
  have pos_s: "positional (cmd s) = positional cl"
    using ext0 s0 by (simp add: extends_def)
  have fin: "errors cl' =
             errors (cmd s)
             @ (if expectingVal s \<noteq> None
                then [noValueError (programName cl') (expectingValName s)] else [])
             @ (if positional cl = None \<and> positionalArgs s \<noteq> [] \<and> \<not> hadUnknowns s
                then [positionalError (programName cl') (hd (positionalArgs s))] else [])"
    unfolding prog unfolding cl'_def parse_finish_errors pos_s prog_s by (rule refl)
  have sub: "set (errors (cmd s)) \<subseteq> set (errors cl')"
    unfolding fin by auto
  have init: "scan_state s0 = (False, False)" "positionalArgs s0 = []" "\<not> hadUnknowns s0"
    "same_kinds h (heap s0)"
    by (simp_all add: s0_def parse_init_def scan_state_def same_kinds_refl)
  note cls = parse_loop_classify [OF s init(4) s0(1)]
  have pa: "positionalArgs s = positionalArguments ext cl h (tl args)"
    using cls init by (simp add: positionalArguments_def)
  have hu: "hadUnknowns s = hasUnknownArgument ext cl h (tl args)"
    using cls init by (simp add: hasUnknownArgument_def)
  have ss: "scan_state s = scan_after ext cl h (False, False) (tl args)"
    using cls init(1) by simp
  have vp: "(expectingVal s \<noteq> None) = valuePending ext cl h (tl args)"
    unfolding valuePending_def ss [symmetric] by (simp add: scan_state_def)
  have fin': "errors cl' =
             errors (cmd s)
             @ (if valuePending ext cl h (tl args)
                then [noValueError (programName cl') (expectingValName s)] else [])
             @ (if positional cl = None \<and> positionalArguments ext cl h (tl args) \<noteq> [] \<and>
                   \<not> hasUnknownArgument ext cl h (tl args)
                then [positionalError (programName cl')
                        (hd (positionalArguments ext cl h (tl args)))]
                else [])"
    unfolding pa [symmetric] hu [symmetric] vp [symmetric] by (rule fin)
  have each: "(\<forall>ev. expectingVal sp = Some ev \<and>
                        snd (Option_set ext (heap sp) ev (expectingValName sp) arg) \<noteq> [] \<longrightarrow>
                    prefixedError (programName cl')
                      (snd (Option_set ext (heap sp) ev (expectingValName sp) arg))
                    \<in> set (errors cl'))
               \<and> (\<forall>arg' v h1. isOptionArgument sp arg \<and>
                        resolveOption ext cl (heap sp) arg = Inr (None, arg', v, h1) \<longrightarrow>
                    unknownArgumentError (programName cl') arg (findNearestMatch ext cl arg)
                    \<in> set (errors cl'))
               \<and> (\<forall>opt arg' v h1. isOptionArgument sp arg \<and>
                        resolveOption ext cl (heap sp) arg = Inr (Some opt, arg', v, h1) \<and>
                        \<not> (v = [] \<and> expectsValue h1 opt) \<and>
                        snd (Option_set ext h1 opt arg' v) \<noteq> [] \<longrightarrow>
                    prefixedError (programName cl') (snd (Option_set ext h1 opt arg' v))
                    \<in> set (errors cl'))"
    if split: "tl args = pre @ arg # post" and sp: "parse_loop ext s0 pre = Inr sp"
    for pre arg post sp
  proof -
    from s split have "parse_loop ext s0 (pre @ arg # post) = Inr s"
      by simp
    from parse_loop_split [OF this sp]
    obtain s1 where s1: "step ext sp arg = Inr s1" "extends s0 sp" "extends s1 s"
      by blast
    have om: "optionMap (cmd sp) = optionMap cl"
      using s1(2) s0 by (simp add: extends_def)
    have pn: "programName (cmd sp) = programName cl'"
      using s1(2) s0 prog by (simp add: extends_def)
    have ro: "resolveOption ext (cmd sp) (heap sp) arg = resolveOption ext cl (heap sp) arg"
      using om by (rule resolveOption_optionMap)
    have nm: "findNearestMatch ext (cmd sp) arg = findNearestMatch ext cl arg"
      using om by (rule findNearestMatch_optionMap)
    have final: "msg \<in> set (errors cl')" if "errors (cmd s1) = errors (cmd sp) @ [msg]" for msg
      using appended_in_final [OF that s1(3)] sub by blast
    have p1: "prefixedError (programName cl')
                (snd (Option_set ext (heap sp) ev (expectingValName sp) arg)) \<in> set (errors cl')"
      if "expectingVal sp = Some ev"
        "snd (Option_set ext (heap sp) ev (expectingValName sp) arg) \<noteq> []" for ev
      using step_pending_error [OF that s1(1)] final pn by simp
    have p2: "unknownArgumentError (programName cl') arg (findNearestMatch ext cl arg)
                \<in> set (errors cl')"
      if "isOptionArgument sp arg" "resolveOption ext cl (heap sp) arg = Inr (None, arg', v, h1)"
      for arg' v h1
      using step_unknown_error(1) [OF that(1) _ s1(1), of arg' v h1] that(2) ro nm final pn by simp
    have p3: "prefixedError (programName cl') (snd (Option_set ext h1 opt arg' v)) \<in> set (errors cl')"
      if "isOptionArgument sp arg" "resolveOption ext cl (heap sp) arg = Inr (Some opt, arg', v, h1)"
        "\<not> (v = [] \<and> expectsValue h1 opt)" "snd (Option_set ext h1 opt arg' v) \<noteq> []"
      for opt arg' v h1
      using step_inline_error [OF that(1) _ that(3,4) s1(1)] that(2) ro final pn by simp
    from p1 p2 p3 show ?thesis
      by blast
  qed
  have acct: "errors (cmd s1) =
                   errors (cmd sp) @
                   (case classify ext cl h (False, False) (tl args) ! length pre of
                      PositionalArgument \<Rightarrow> []
                    | DoubleDash \<Rightarrow> []
                    | UnknownArgument \<Rightarrow>
                        [unknownArgumentError (programName cl') arg (findNearestMatch ext cl arg)]
                    | ValueOfPrevious \<Rightarrow>
                        (case expectingVal sp of
                           None \<Rightarrow> []
                         | Some ev \<Rightarrow>
                             entry_if (programName cl')
                               (snd (Option_set ext (heap sp) ev (expectingValName sp) arg)))
                    | KnownOption \<Rightarrow>
                        (case resolveOption ext cl (heap sp) arg of
                           Inr (Some opt, a, v, g) \<Rightarrow>
                             if v = [] \<and> expectsValue g opt then []
                             else entry_if (programName cl') (snd (Option_set ext g opt a v))
                         | _ \<Rightarrow> []))"
    if split: "tl args = pre @ arg # post" and sp: "parse_loop ext s0 pre = Inr sp"
      and s1: "parse_loop ext s0 (pre @ [arg]) = Inr s1"
    for pre arg post sp s1
  proof -
    from s1 sp have st: "step ext sp arg = Inr s1"
      by (auto simp: parse_loop_append split: sum.splits)
    note at = parse_loop_classify [OF sp init(4) s0(1)]
    from at init have ss: "scan_state sp = scan_after ext cl h (False, False) pre"
      by simp
    from at have sk: "same_kinds h (heap sp)"
      by simp
    have e0: "extends s0 sp"
      using sp by (rule parse_loop_extends)
    have om: "optionMap (cmd sp) = optionMap cl"
      using e0 s0 by (simp add: extends_def)
    have pn: "programName (cmd sp) = programName cl'"
      using e0 s0 prog by (simp add: extends_def)
    have cl: "classify ext cl h (False, False) (tl args) ! length pre =
              fst (classify_arg ext cl h (scan_state sp) arg)"
      unfolding split ss by (rule classify_nth)
    show ?thesis
      using step_account [OF st sk om] unfolding cl pn .
  qed
  have unk: "unknownArgumentError (programName cl') (tl args ! i)
               (findNearestMatch ext cl (tl args ! i)) \<in> set (errors cl')"
    if i: "i < length (tl args)"
      and c: "classify ext cl h (False, False) (tl args) ! i = UnknownArgument" for i
  proof -
    obtain sp where sp: "parse_loop ext s0 (take i (tl args)) = Inr sp"
      using parse_loop_total by blast
    note at = parse_loop_classify [OF sp init(4) s0(1)]
    from at init have ss: "scan_state sp = scan_after ext cl h (False, False) (take i (tl args))"
      by simp
    from at have sk: "same_kinds h (heap sp)"
      by simp
    from c have "fst (classify_arg ext cl h (scan_state sp) (tl args ! i)) = UnknownArgument"
      unfolding ss classify_at_index [OF i] .
    from classify_arg_Unknown [OF this sk]
    obtain a v g where io: "isOptionArgument sp (tl args ! i)"
      and r: "resolveOption ext cl (heap sp) (tl args ! i) = Inr (None, a, v, g)"
      by blast
    from each [OF id_take_nth_drop [OF i] sp] io r show ?thesis
      by blast
  qed
  show ?thesis
    apply (rule exI [of _ s], rule exI [of _ cl'], rule exI [of _ h'])
    apply (intro conjI)
    using s apply (simp add: s0_def)
    using res apply simp
    using prog apply simp
    using pre apply simp
    using pa apply simp
    using hu apply simp
    using vp apply simp
    using fin' apply simp
    using unk apply blast
    apply (simp add: parse_init_def)
    apply (intro allI impI, elim conjE, rule acct [unfolded s0_def]; assumption)
    using each apply (simp only: s0_def) apply blast
    done
qed

text \<open>
  C10, as the claim states it, fails on the positional arguments. With the flag and
  the count registered and no positional target, the arguments \<open>-x file.sv\<close> leave one
  entry in the error list, for the unknown \<open>-x\<close>; the positional \<open>file.sv\<close>, which
  the loop collects and which is not allowed, has none: the source reports positional
  arguments only when \<open>hadUnknowns\<close> is false.
\<close>

theorem parse_drops_positional_error:
  "positional example_commandLine = None
   \<and> (case parse_loop example_externals
             (parse_init example_commandLine example_store [''slang'', ''-x'', ''file.sv''])
             [''-x'', ''file.sv''] of
         Inl e \<Rightarrow> False
       | Inr s \<Rightarrow> positionalArgs s = [''file.sv''] \<and> hadUnknowns s)
   \<and> parse_outcome
        (parse example_externals example_commandLine example_store [''slang'', ''-x'', ''file.sv''])
      = Some (False, [''slang: unknown command line argument '' @ fmt_quoted ''-x''])
   \<and> positionalError ''slang'' ''file.sv'' \<notin>
        set [''slang: unknown command line argument '' @ fmt_quoted ''-x'']"
  by code_simp

text \<open>
  C10, amended. \<open>parse\<close> throws a runtime error on an empty argument list, and on a
  non-empty one when no option is registered. Otherwise it returns, and the flag it
  returns says whether the error list is empty then. The entries present at the call
  stay. The arguments after the program name are read from left to right
  (\<open>classify\<close>), and the loop adds for each in turn: nothing for a positional argument
  and for the double dash; the "unknown command line argument" entry for an argument
  that names no registered option; and for a value, pending or inline, the message that
  \<open>Option::set\<close> returns, when it is not empty. So each unknown argument and each such
  message is in the list at the end. After the loop, an option still waiting for its
  value adds "no value provided", and the positional arguments, given without a
  positional target, add one entry, naming the first of them in the order of the
  arguments, exactly when no argument was unknown. The positional arguments, the
  presence of an unknown argument and the pending value that the loop holds at its end
  are those of the reading of the arguments.
\<close>

theorem parse_reports:
  "parse ext cl h [] = Inl (runtime_error ''Expected at least one argument'')
   \<and> (args \<noteq> [] \<and> optionMap cl = [] \<longrightarrow>
        parse ext cl h args = Inl (runtime_error ''No options defined''))
   \<and> (args \<noteq> [] \<and> optionMap cl \<noteq> [] \<longrightarrow>
        (\<exists>s cl' h'.
           parse_loop ext (parse_init cl h args) (tl args) = Inr s
         \<and> parse ext cl h args = Inr (errors cl' = [], cl', h')
         \<and> programName cl' = path_filename (hd args)
         \<and> prefix (errors cl) (errors (cmd s))
         \<and> positionalArgs s = positionalArguments ext cl h (tl args)
         \<and> hadUnknowns s = hasUnknownArgument ext cl h (tl args)
         \<and> (expectingVal s \<noteq> None) = valuePending ext cl h (tl args)
         \<and> errors cl' =
             errors (cmd s)
             @ (if valuePending ext cl h (tl args)
                then [noValueError (programName cl') (expectingValName s)] else [])
             @ (if positional cl = None \<and> positionalArguments ext cl h (tl args) \<noteq> [] \<and>
                   \<not> hasUnknownArgument ext cl h (tl args)
                then [positionalError (programName cl')
                        (hd (positionalArguments ext cl h (tl args)))]
                else [])
         \<and> (\<forall>i. i < length (tl args) \<and>
                  classify ext cl h (False, False) (tl args) ! i = UnknownArgument \<longrightarrow>
                unknownArgumentError (programName cl') (tl args ! i)
                  (findNearestMatch ext cl (tl args ! i)) \<in> set (errors cl'))
         \<and> errors (cmd (parse_init cl h args)) = errors cl
         \<and> (\<forall>pre arg post sp s1.
               tl args = pre @ arg # post \<and> parse_loop ext (parse_init cl h args) pre = Inr sp \<and>
               parse_loop ext (parse_init cl h args) (pre @ [arg]) = Inr s1 \<longrightarrow>
                 errors (cmd s1) =
                   errors (cmd sp) @
                   (case classify ext cl h (False, False) (tl args) ! length pre of
                      PositionalArgument \<Rightarrow> []
                    | DoubleDash \<Rightarrow> []
                    | UnknownArgument \<Rightarrow>
                        [unknownArgumentError (programName cl') arg (findNearestMatch ext cl arg)]
                    | ValueOfPrevious \<Rightarrow>
                        (case expectingVal sp of
                           None \<Rightarrow> []
                         | Some ev \<Rightarrow>
                             entry_if (programName cl')
                               (snd (Option_set ext (heap sp) ev (expectingValName sp) arg)))
                    | KnownOption \<Rightarrow>
                        (case resolveOption ext cl (heap sp) arg of
                           Inr (Some opt, a, v, g) \<Rightarrow>
                             if v = [] \<and> expectsValue g opt then []
                             else entry_if (programName cl') (snd (Option_set ext g opt a v))
                         | _ \<Rightarrow> [])))
         \<and> (\<forall>pre arg post sp.
               tl args = pre @ arg # post \<and> parse_loop ext (parse_init cl h args) pre = Inr sp \<longrightarrow>
                 (\<forall>ev. expectingVal sp = Some ev \<and>
                        snd (Option_set ext (heap sp) ev (expectingValName sp) arg) \<noteq> [] \<longrightarrow>
                    prefixedError (programName cl')
                      (snd (Option_set ext (heap sp) ev (expectingValName sp) arg))
                    \<in> set (errors cl'))
               \<and> (\<forall>arg' v h1. isOptionArgument sp arg \<and>
                        resolveOption ext cl (heap sp) arg = Inr (None, arg', v, h1) \<longrightarrow>
                    unknownArgumentError (programName cl') arg (findNearestMatch ext cl arg)
                    \<in> set (errors cl'))
               \<and> (\<forall>opt arg' v h1. isOptionArgument sp arg \<and>
                        resolveOption ext cl (heap sp) arg = Inr (Some opt, arg', v, h1) \<and>
                        \<not> (v = [] \<and> expectsValue h1 opt) \<and>
                        snd (Option_set ext h1 opt arg' v) \<noteq> [] \<longrightarrow>
                    prefixedError (programName cl') (snd (Option_set ext h1 opt arg' v))
                    \<in> set (errors cl')))))"
proof (intro conjI impI)
  show "parse ext cl h [] = Inl (runtime_error ''Expected at least one argument'')"
    by (simp add: parse_def)
next
  assume "args \<noteq> [] \<and> optionMap cl = []"
  then show "parse ext cl h args = Inl (runtime_error ''No options defined'')"
    by (simp add: parse_def)
qed (rule parse_reports_aux)

theorem parse_reports_witness:
  "example_args \<noteq> [] \<and> optionMap example_commandLine \<noteq> []
   \<and> classify example_externals example_commandLine example_store (False, False) (tl example_args)
       = [UnknownArgument, KnownOption, ValueOfPrevious, KnownOption, KnownOption]
   \<and> (\<exists>s1. parse_loop example_externals
               (parse_init example_commandLine example_store example_args) [''-x''] = Inr s1
            \<and> errors (cmd s1) = [''slang: unknown command line argument '' @ fmt_quoted ''-x''])
   \<and> (\<exists>cl' h'.
         parse example_externals example_commandLine example_store example_args = Inr (False, cl', h')
       \<and> ''slang: unknown command line argument '' @ fmt_quoted ''-x'' \<in> set (errors cl')
       \<and> ''slang: invalid value '' @ fmt_quoted ''abc'' @ '' for integer argument '' @ fmt_quoted ''--count''
           \<in> set (errors cl')
       \<and> ''slang: invalid value '' @ fmt_quoted ''zz'' @ '' for integer argument '' @ fmt_quoted ''-c=zz''
           \<in> set (errors cl')
       \<and> ''slang: no value provided for argument '' @ fmt_quoted ''--count'' \<in> set (errors cl'))
   \<and> positionalArguments example_externals example_commandLine example_store
         [''f1.sv'', ''-a'', ''f2.sv''] = [''f1.sv'', ''f2.sv'']
   \<and> (\<exists>cl' h'.
         parse example_externals example_commandLine example_store
           [''slang'', ''f1.sv'', ''-a'', ''f2.sv''] = Inr (False, cl', h')
       \<and> errors cl' = [positionalError ''slang'' ''f1.sv''])
   \<and> parse example_externals (example_commandLine\<lparr>optionMap := []\<rparr>) example_store [''slang'']
       = Inl (runtime_error ''No options defined'')"
proof -
  let ?X = example_externals and ?C = example_commandLine and ?H = example_store
  let ?s0 = "parse_init ?C ?H example_args"
  have hyp: "example_args \<noteq> [] \<and> optionMap ?C \<noteq> []"
    by code_simp
  have tl: "tl example_args = [''-x'', ''--count'', ''abc'', ''-c=zz'', ''--count'']"
    by (simp add: example_args_def)
  have prog: "path_filename (hd example_args) = ''slang''"
    by code_simp
  have cls: "classify ?X ?C ?H (False, False) (tl example_args)
       = [UnknownArgument, KnownOption, ValueOfPrevious, KnownOption, KnownOption]"
    by code_simp
  note parse_reports [of ?X ?C ?H example_args, THEN conjunct2, THEN conjunct2, THEN mp, OF hyp]
  then obtain s cl' h' where
    loop: "parse_loop ?X ?s0 (tl example_args) = Inr s"
    and res: "parse ?X ?C ?H example_args = Inr (errors cl' = [], cl', h')"
    and pn: "programName cl' = path_filename (hd example_args)"
    and fin: "errors cl' =
             errors (cmd s)
             @ (if valuePending ?X ?C ?H (tl example_args)
                then [noValueError (programName cl') (expectingValName s)] else [])
             @ (if positional ?C = None \<and> positionalArguments ?X ?C ?H (tl example_args) \<noteq> [] \<and>
                   \<not> hasUnknownArgument ?X ?C ?H (tl example_args)
                then [positionalError (programName cl')
                        (hd (positionalArguments ?X ?C ?H (tl example_args)))]
                else [])"
    and unk0: "\<forall>i. i < length (tl example_args) \<and>
                  classify ?X ?C ?H (False, False) (tl example_args) ! i = UnknownArgument \<longrightarrow>
                unknownArgumentError (programName cl') (tl example_args ! i)
                  (findNearestMatch ?X ?C (tl example_args ! i)) \<in> set (errors cl')"
    and acct0: "\<forall>pre arg post sp s1.
               tl example_args = pre @ arg # post \<and> parse_loop ?X ?s0 pre = Inr sp \<and>
               parse_loop ?X ?s0 (pre @ [arg]) = Inr s1 \<longrightarrow>
                 errors (cmd s1) =
                   errors (cmd sp) @
                   (case classify ?X ?C ?H (False, False) (tl example_args) ! length pre of
                      PositionalArgument \<Rightarrow> []
                    | DoubleDash \<Rightarrow> []
                    | UnknownArgument \<Rightarrow>
                        [unknownArgumentError (programName cl') arg (findNearestMatch ?X ?C arg)]
                    | ValueOfPrevious \<Rightarrow>
                        (case expectingVal sp of
                           None \<Rightarrow> []
                         | Some ev \<Rightarrow>
                             entry_if (programName cl')
                               (snd (Option_set ?X (heap sp) ev (expectingValName sp) arg)))
                    | KnownOption \<Rightarrow>
                        (case resolveOption ?X ?C (heap sp) arg of
                           Inr (Some opt, a, v, g) \<Rightarrow>
                             if v = [] \<and> expectsValue g opt then []
                             else entry_if (programName cl') (snd (Option_set ?X g opt a v))
                         | _ \<Rightarrow> []))"
    and each0: "\<forall>pre arg post sp.
               tl example_args = pre @ arg # post \<and> parse_loop ?X ?s0 pre = Inr sp \<longrightarrow>
                 (\<forall>ev. expectingVal sp = Some ev \<and>
                        snd (Option_set ?X (heap sp) ev (expectingValName sp) arg) \<noteq> [] \<longrightarrow>
                    prefixedError (programName cl')
                      (snd (Option_set ?X (heap sp) ev (expectingValName sp) arg))
                    \<in> set (errors cl'))
               \<and> (\<forall>arg' v h1. isOptionArgument sp arg \<and>
                        resolveOption ?X ?C (heap sp) arg = Inr (None, arg', v, h1) \<longrightarrow>
                    unknownArgumentError (programName cl') arg (findNearestMatch ?X ?C arg)
                    \<in> set (errors cl'))
               \<and> (\<forall>opt arg' v h1. isOptionArgument sp arg \<and>
                        resolveOption ?X ?C (heap sp) arg = Inr (Some opt, arg', v, h1) \<and>
                        \<not> (v = [] \<and> expectsValue h1 opt) \<and>
                        snd (Option_set ?X h1 opt arg' v) \<noteq> [] \<longrightarrow>
                    prefixedError (programName cl') (snd (Option_set ?X h1 opt arg' v))
                    \<in> set (errors cl'))"
    by (elim exE conjE) (rule that; assumption)
  note each = each0 [rule_format, OF conjI]
  have pn': "programName cl' = ''slang''"
    using pn prog by simp
  \<comment> \<open>the unknown argument -x, first in the list\<close>
  have u0: "0 < length (tl example_args) \<and>
            classify ?X ?C ?H (False, False) (tl example_args) ! 0 = UnknownArgument"
    unfolding cls by (simp add: tl)
  have u2: "unknownArgumentError ''slang'' (tl example_args ! 0)
              (findNearestMatch ?X ?C (tl example_args ! 0))
            = ''slang: unknown command line argument '' @ fmt_quoted ''-x''"
    by code_simp
  have m1: "''slang: unknown command line argument '' @ fmt_quoted ''-x'' \<in> set (errors cl')"
    using unk0 [rule_format, OF u0] unfolding pn' u2 .
  \<comment> \<open>the entries after the first argument\<close>
  obtain s1 where s1: "parse_loop ?X ?s0 [''-x''] = Inr s1"
    using parse_loop_total by blast
  have e0: "errors (cmd ?s0) = []"
    by code_simp
  have u3: "unknownArgumentError ''slang'' ''-x'' (findNearestMatch ?X ?C ''-x'')
            = ''slang: unknown command line argument '' @ fmt_quoted ''-x''"
    by code_simp
  have "errors (cmd s1) = [''slang: unknown command line argument '' @ fmt_quoted ''-x'']"
    using acct0 [rule_format, of "[]" "''-x''" "[''--count'', ''abc'', ''-c=zz'', ''--count'']" ?s0 s1]
      s1 tl e0 u3 pn' cls
    by simp
  with s1 have zeroth: "\<exists>s1. parse_loop ?X ?s0 [''-x''] = Inr s1
            \<and> errors (cmd s1) = [''slang: unknown command line argument '' @ fmt_quoted ''-x'']"
    by blast
  \<comment> \<open>the value abc given to --count\<close>
  have "case parse_loop ?X ?s0 [''-x'', ''--count''] of
          Inl e \<Rightarrow> False
        | Inr sp \<Rightarrow> expectingVal sp = Some example_count \<and>
            snd (Option_set ?X (heap sp) example_count (expectingValName sp) ''abc'') =
              ''invalid value '' @ fmt_quoted ''abc'' @ '' for integer argument '' @ fmt_quoted ''--count''"
    by code_simp
  then obtain sp2 where p2: "parse_loop ?X ?s0 [''-x'', ''--count''] = Inr sp2"
    "expectingVal sp2 = Some example_count"
    "snd (Option_set ?X (heap sp2) example_count (expectingValName sp2) ''abc'') =
       ''invalid value '' @ fmt_quoted ''abc'' @ '' for integer argument '' @ fmt_quoted ''--count''"
    by (auto split: sum.splits)
  have m2: "''slang: invalid value '' @ fmt_quoted ''abc'' @ '' for integer argument '' @ fmt_quoted ''--count''
           \<in> set (errors cl')"
    using each [of "[''-x'', ''--count'']" "''abc''" "[''-c=zz'', ''--count'']" sp2,
        THEN conjunct1, rule_format, of example_count] tl p2 pn'
    by (simp add: prefixedError_def)
  \<comment> \<open>the value zz given inline to -c\<close>
  have "case parse_loop ?X ?s0 [''-x'', ''--count'', ''abc''] of
          Inl e \<Rightarrow> False
        | Inr sp \<Rightarrow> isOptionArgument sp ''-c=zz'' \<and>
            (case resolveOption ?X ?C (heap sp) ''-c=zz'' of
               Inr (Some opt, arg', v, h1) \<Rightarrow>
                 \<not> (v = [] \<and> expectsValue h1 opt) \<and>
                 snd (Option_set ?X h1 opt arg' v) =
                   ''invalid value '' @ fmt_quoted ''zz'' @ '' for integer argument '' @ fmt_quoted ''-c=zz''
             | _ \<Rightarrow> False)"
    by code_simp
  then obtain sp3 opt a3 v3 h3 where p3: "parse_loop ?X ?s0 [''-x'', ''--count'', ''abc''] = Inr sp3"
    "isOptionArgument sp3 ''-c=zz''"
    "resolveOption ?X ?C (heap sp3) ''-c=zz'' = Inr (Some opt, a3, v3, h3)"
    "\<not> (v3 = [] \<and> expectsValue h3 opt)"
    "snd (Option_set ?X h3 opt a3 v3) =
       ''invalid value '' @ fmt_quoted ''zz'' @ '' for integer argument '' @ fmt_quoted ''-c=zz''"
    by (auto split: sum.splits option.splits)
  have m3: "''slang: invalid value '' @ fmt_quoted ''zz'' @ '' for integer argument '' @ fmt_quoted ''-c=zz''
           \<in> set (errors cl')"
    using each [of "[''-x'', ''--count'', ''abc'']" "''-c=zz''" "[''--count'']" sp3,
        THEN conjunct2, THEN conjunct2, rule_format, of opt a3 v3 h3] tl p3 pn'
    by (simp add: prefixedError_def)
  \<comment> \<open>the last argument --count, with no value after it\<close>
  have vp: "valuePending ?X ?C ?H (tl example_args)"
    by code_simp
  have "case parse_loop ?X ?s0 (tl example_args) of
          Inl e \<Rightarrow> False
        | Inr sf \<Rightarrow> expectingValName sf = ''--count''"
    by code_simp
  with loop have p4: "expectingValName s = ''--count''"
    by auto
  have m4: "''slang: no value provided for argument '' @ fmt_quoted ''--count'' \<in> set (errors cl')"
    unfolding fin using vp p4 pn' by (simp add: noValueError_def)
  from m1 have "errors cl' \<noteq> []"
    by auto
  with res have "parse ?X ?C ?H example_args = Inr (False, cl', h')"
    by simp
  with m1 m2 m3 m4 have first: "\<exists>cl' h'.
         parse ?X ?C ?H example_args = Inr (False, cl', h')
       \<and> ''slang: unknown command line argument '' @ fmt_quoted ''-x'' \<in> set (errors cl')
       \<and> ''slang: invalid value '' @ fmt_quoted ''abc'' @ '' for integer argument '' @ fmt_quoted ''--count''
           \<in> set (errors cl')
       \<and> ''slang: invalid value '' @ fmt_quoted ''zz'' @ '' for integer argument '' @ fmt_quoted ''-c=zz''
           \<in> set (errors cl')
       \<and> ''slang: no value provided for argument '' @ fmt_quoted ''--count'' \<in> set (errors cl')"
    by blast
  \<comment> \<open>two positional arguments, no unknown argument\<close>
  let ?args2 = "[''slang'', ''f1.sv'', ''-a'', ''f2.sv'']"
  let ?t0 = "parse_init ?C ?H ?args2"
  have hyp2: "?args2 \<noteq> [] \<and> optionMap ?C \<noteq> []"
    by code_simp
  note parse_reports [of ?X ?C ?H ?args2, THEN conjunct2, THEN conjunct2, THEN mp, OF hyp2]
  then obtain t cl2 h2 where
    loop2: "parse_loop ?X ?t0 (tl ?args2) = Inr t"
    and res2: "parse ?X ?C ?H ?args2 = Inr (errors cl2 = [], cl2, h2)"
    and pn2: "programName cl2 = path_filename (hd ?args2)"
    and fin2: "errors cl2 =
             errors (cmd t)
             @ (if valuePending ?X ?C ?H (tl ?args2)
                then [noValueError (programName cl2) (expectingValName t)] else [])
             @ (if positional ?C = None \<and> positionalArguments ?X ?C ?H (tl ?args2) \<noteq> [] \<and>
                   \<not> hasUnknownArgument ?X ?C ?H (tl ?args2)
                then [positionalError (programName cl2)
                        (hd (positionalArguments ?X ?C ?H (tl ?args2)))]
                else [])"
    by (elim exE conjE) (rule that; assumption)
  have pa2: "positionalArguments ?X ?C ?H [''f1.sv'', ''-a'', ''f2.sv''] = [''f1.sv'', ''f2.sv'']"
    by code_simp
  have hu2: "\<not> hasUnknownArgument ?X ?C ?H [''f1.sv'', ''-a'', ''f2.sv'']"
    by code_simp
  have vp2: "\<not> valuePending ?X ?C ?H [''f1.sv'', ''-a'', ''f2.sv'']"
    by code_simp
  have "case parse_loop ?X ?t0 (tl ?args2) of
          Inl e \<Rightarrow> False
        | Inr tf \<Rightarrow> errors (cmd tf) = []"
    by code_simp
  with loop2 have p5: "errors (cmd t) = []"
    by auto
  have pos: "positional ?C = None"
    by code_simp
  have "path_filename (hd ?args2) = ''slang''"
    by code_simp
  with pn2 have pn2': "programName cl2 = ''slang''"
    by simp
  have m5: "errors cl2 = [positionalError ''slang'' ''f1.sv'']"
    unfolding fin2 using p5 pos pn2' pa2 hu2 vp2 by simp
  then have "errors cl2 \<noteq> []"
    by simp
  with res2 m5 have second: "\<exists>cl' h'.
         parse ?X ?C ?H ?args2 = Inr (False, cl', h')
       \<and> errors cl' = [positionalError ''slang'' ''f1.sv'']"
    by auto
  \<comment> \<open>no option registered\<close>
  have third: "parse ?X (?C\<lparr>optionMap := []\<rparr>) ?H [''slang''] = Inl (runtime_error ''No options defined'')"
    using parse_reports [of ?X "?C\<lparr>optionMap := []\<rparr>" ?H "[''slang'']", THEN conjunct2, THEN conjunct1]
    by simp
  from hyp cls zeroth first pa2 second third show ?thesis
    by blast
qed

end
